theory Spec2Isabelle
  imports Main "HOL-Library.Word"
begin

unbundle bit_operations_syntax

section \<open>Basic types\<close>

type_synonym byte = "8 word"
type_synonym uint32 = "32 word"
type_synonym uint64 = "64 word"

text \<open>Go's conversion \<^verbatim>\<open>[]byte(s)\<close> of a string to its bytes.\<close>

definition bytes_of_string :: "string \<Rightarrow> byte list" where
  "bytes_of_string s = map of_char s"

section \<open>Errors\<close>

text \<open>
  Modelled from the spec: \<^verbatim>\<open>ENoSuchPartition\<close>, \<^verbatim>\<open>ENoSuchSite\<close>, \<^verbatim>\<open>ENoSuchBucket\<close>,
  \<^verbatim>\<open>ENoQuorum\<close>, \<^verbatim>\<open>EStopped\<close>, \<^verbatim>\<open>ERemoved\<close>, \<^verbatim>\<open>ECancelled\<close> and \<^verbatim>\<open>EDecommissioned\<close> are
  used by package \<^verbatim>\<open>node\<close> but declared outside the files at hand; the spec's error table
  lists them as error kinds of their own, so each is a value distinct from all others.

  The rest is from the code. \<^verbatim>\<open>DBerror\<close> is the struct of package \<^verbatim>\<open>error\<close> and
  \<^verbatim>\<open>EStorage\<close> ... \<^verbatim>\<open>EBucketDoesNotExist\<close> below are values of it; their codes are the
  \<^verbatim>\<open>iota\<close> positions of its constant block. \<^verbatim>\<open>ErrorString\<close> is a value made by
  \<^verbatim>\<open>errors.New\<close>, \<^verbatim>\<open>ErrorStatusCode\<close> the API client's error for a response that is not
  200, \<^verbatim>\<open>OtherError\<close> any other error value (transport, context, storage). A Go
  \<^verbatim>\<open>error\<close> that may be nil is an \<open>error option\<close>.
\<close>

datatype error =
    DBerror (Msg: string) (ErrorCode: nat)
  | ErrorString string
  | ErrorStatusCode string nat
  | OtherError string
  | ENoSuchPartition
  | ENoSuchSite
  | ENoSuchBucket
  | ENoQuorum
  | EStopped
  | ERemoved
  | ECancelled
  | EDecommissioned

definition EStorage :: error where
  "EStorage = DBerror ''The storage driver experienced an error'' 3"

definition ECorrupted :: error where
  "ECorrupted = DBerror ''The storage medium is corrupted'' 4"

definition EDuplicateNodeID :: error where
  "EDuplicateNodeID =
     DBerror ''The ID the node is using was already used by a cluster member at some point.'' 19"

definition ESiteDoesNotExist :: error where
  "ESiteDoesNotExist = DBerror ''The specified site does not exist at this node.'' 20"

definition EBucketDoesNotExist :: error where
  "EBucketDoesNotExist = DBerror ''The site does not contain the specified bucket.'' 21"

definition ENoLocalBucket :: error where
  "ENoLocalBucket = ErrorString ''No such bucket exists locally''"

section \<open>Constants and storage prefixes (package node)\<close>

text \<open>The constant block \<^verbatim>\<open>const ( RaftStoreStoragePrefix = iota; SiteStoreStoragePrefix = iota )\<close>.\<close>

definition RaftStoreStoragePrefix :: nat where
  "RaftStoreStoragePrefix = 0"

definition SiteStoreStoragePrefix :: nat where
  "SiteStoreStoragePrefix = 1"

text \<open>\<^verbatim>\<open>const ClusterJoinRetryTimeout = 5\<close>, in seconds where it is used.\<close>

definition ClusterJoinRetryTimeout :: nat where
  "ClusterJoinRetryTimeout = 5"

text \<open>
  \<^verbatim>\<open>NewPrefixedStorageDriver\<close> is declared outside the files at hand; the model keeps what
  the node hands to it: the prefix and the driver it wraps.
\<close>

record 'd PrefixedStorageDriver =
  prefix :: "byte list"
  wrapped :: 'd

definition NewPrefixedStorageDriver :: "byte list \<Rightarrow> 'd \<Rightarrow> 'd PrefixedStorageDriver" where
  "NewPrefixedStorageDriver p d = \<lparr>prefix = p, wrapped = d\<rparr>"

record 'd ClusterNodeConfig =
  StorageDriver :: 'd
  MerkleDepth :: byte
  Capacity :: uint64

text \<open>The storage driver that \<^verbatim>\<open>New\<close> passes to \<^verbatim>\<open>NewRaftStorage\<close>.\<close>

definition New_raftStoreDriver :: "'d ClusterNodeConfig \<Rightarrow> 'd PrefixedStorageDriver" where
  "New_raftStoreDriver config =
     NewPrefixedStorageDriver [of_nat RaftStoreStoragePrefix] (StorageDriver config)"

text \<open>
  Go's \<^verbatim>\<open>binary.BigEndian.PutUint64(b, v)\<close>: it writes \<^verbatim>\<open>byte(v >> 56)\<close> ...
  \<^verbatim>\<open>byte(v)\<close> to \<^verbatim>\<open>b[0]\<close> ... \<^verbatim>\<open>b[7]\<close> and panics (\<open>None\<close>) on a shorter slice.
\<close>

definition BigEndian_PutUint64 :: "byte list \<Rightarrow> uint64 \<Rightarrow> byte list option" where
  "BigEndian_PutUint64 b v =
     (if length b < 8 then None
      else Some (b[0 := ucast (drop_bit 56 v), 1 := ucast (drop_bit 48 v),
                   2 := ucast (drop_bit 40 v), 3 := ucast (drop_bit 32 v),
                   4 := ucast (drop_bit 24 v), 5 := ucast (drop_bit 16 v),
                   6 := ucast (drop_bit 8 v), 7 := ucast v]))"

text \<open>
  \<^verbatim>\<open>sitePoolStorePrefix\<close>: \<^verbatim>\<open>make([]byte, 9)\<close>, the first byte set, the partition
  number written into \<^verbatim>\<open>prefix[1:]\<close>. \<open>None\<close> would be a panic of \<^verbatim>\<open>PutUint64\<close>.
\<close>

definition sitePoolStorePrefix :: "uint64 \<Rightarrow> byte list option" where
  "sitePoolStorePrefix partitionNumber =
     (let prefix0 = replicate 9 0;
          prefix1 = prefix0[0 := of_nat SiteStoreStoragePrefix]
      in case BigEndian_PutUint64 (drop 1 prefix1) partitionNumber of
           None \<Rightarrow> None
         | Some b \<Rightarrow> Some (take 1 prefix1 @ b))"

text \<open>The storage driver \<^verbatim>\<open>sitePool\<close> builds for a partition's site factory.\<close>

definition sitePool_storageDriver :: "'d \<Rightarrow> uint64 \<Rightarrow> 'd PrefixedStorageDriver option" where
  "sitePool_storageDriver driver partitionNumber =
     map_option (\<lambda>p. NewPrefixedStorageDriver p driver) (sitePoolStorePrefix partitionNumber)"

text \<open>The number a byte sequence denotes when read as a big-endian integer.\<close>

definition big_endian_value :: "byte list \<Rightarrow> nat" where
  "big_endian_value bs = foldl (\<lambda>acc b. acc * 256 + unat b) 0 bs"

section \<open>CloudResponderMerkleNodeIterator (sync/bucket\_proxy.go)\<close>

text \<open>
  \<^verbatim>\<open>rest.MerkleKeys\<close> is declared outside the files at hand; the iterator only reads
  its \<^verbatim>\<open>Keys\<close> slice, whose entries have a string \<^verbatim>\<open>Key\<close> and a pointer
  \<^verbatim>\<open>Value\<close> to a sibling set (\<open>None\<close> models the nil pointer).
\<close>

record 'v MerkleKeyEntry =
  Key :: string
  Value :: "'v option"

record 'v MerkleKeys =
  Keys :: "'v MerkleKeyEntry list"

record 'v CloudResponderMerkleNodeIterator =
  MerkleKeys :: "'v MerkleKeys"
  CurrentIndex :: int

text \<open>The iterator \<^verbatim>\<open>GetSyncChildren\<close> builds: \<^verbatim>\<open>CurrentIndex: -1\<close>.\<close>

definition newCloudResponderMerkleNodeIterator ::
    "'v MerkleKeys \<Rightarrow> 'v CloudResponderMerkleNodeIterator" where
  "newCloudResponderMerkleNodeIterator mk = \<lparr>MerkleKeys = mk, CurrentIndex = - 1\<rparr>"

text \<open>\<^verbatim>\<open>Next\<close> mutates the receiver: the model returns the result and the new iterator.\<close>

definition Iterator_Next ::
    "'v CloudResponderMerkleNodeIterator \<Rightarrow> bool \<times> 'v CloudResponderMerkleNodeIterator" where
  "Iterator_Next iter =
     (if CurrentIndex iter \<ge> int (length (Keys (MerkleKeys iter))) - 1
      then (False, iter\<lparr>CurrentIndex := int (length (Keys (MerkleKeys iter)))\<rparr>)
      else (True, iter\<lparr>CurrentIndex := CurrentIndex iter + 1\<rparr>))"

definition Iterator_Prefix :: "'v CloudResponderMerkleNodeIterator \<Rightarrow> byte list option" where
  "Iterator_Prefix iter = None"

definition Iterator_Key :: "'v CloudResponderMerkleNodeIterator \<Rightarrow> byte list option" where
  "Iterator_Key iter =
     (if CurrentIndex iter < 0 \<or> length (Keys (MerkleKeys iter)) = 0
         \<or> CurrentIndex iter \<ge> int (length (Keys (MerkleKeys iter)))
      then None
      else Some (bytes_of_string (Key (Keys (MerkleKeys iter) ! nat (CurrentIndex iter)))))"

definition Iterator_Value :: "'v CloudResponderMerkleNodeIterator \<Rightarrow> 'v option" where
  "Iterator_Value iter =
     (if CurrentIndex iter < 0 \<or> length (Keys (MerkleKeys iter)) = 0
         \<or> CurrentIndex iter \<ge> int (length (Keys (MerkleKeys iter)))
      then None
      else Value (Keys (MerkleKeys iter) ! nat (CurrentIndex iter)))"

definition Iterator_Error :: "'v CloudResponderMerkleNodeIterator \<Rightarrow> string option" where
  "Iterator_Error iter = None"

text \<open>The iterator after \<open>k\<close> calls of \<^verbatim>\<open>Next\<close>.\<close>

fun Iterator_advance ::
    "nat \<Rightarrow> 'v CloudResponderMerkleNodeIterator \<Rightarrow> 'v CloudResponderMerkleNodeIterator" where
  "Iterator_advance 0 iter = iter"
| "Iterator_advance (Suc k) iter = snd (Iterator_Next (Iterator_advance k iter))"

text \<open>
  The usual client loop \<^verbatim>\<open>for iter.Next() { use(iter.Key(), iter.Value()) }\<close>,
  collecting what it sees.
\<close>

function Iterator_drain ::
    "'v CloudResponderMerkleNodeIterator \<Rightarrow> (byte list option \<times> 'v option) list" where
  "Iterator_drain iter =
     (case Iterator_Next iter of
        (True, iter') \<Rightarrow> (Iterator_Key iter', Iterator_Value iter') # Iterator_drain iter'
      | (False, iter') \<Rightarrow> [])"
  by pat_completeness auto
termination
  by (relation "measure (\<lambda>iter. nat (int (length (Keys (MerkleKeys iter))) - CurrentIndex iter))")
     (auto simp: Iterator_Next_def split: if_splits)

declare Iterator_drain.simps [simp del]

section \<open>Bucket proxies (package sync)\<close>

text \<open>
  \<^verbatim>\<open>Bucket\<close> is an interface declared outside the files at hand. A bucket object is
  an address in a store of bucket states \<open>'s\<close>; its methods are parameters that take
  the bucket's state and return the new one with their result. \<open>'p\<close> is the type of a
  patch (\<^verbatim>\<open>map[string]*SiblingSet\<close>), \<open>'u\<close> of an update batch.
\<close>

type_synonym bucket_ref = nat

record ('s, 'p, 'u) Bucket =
  Bucket_Name :: "'s \<Rightarrow> string"
  Bucket_Merge :: "'p \<Rightarrow> 's \<Rightarrow> error option \<times> 's"
  Bucket_Forget :: "byte list list \<Rightarrow> 's \<Rightarrow> error option \<times> 's"
  Bucket_Batch :: "'u \<Rightarrow> 's \<Rightarrow> ('p option \<times> error option) \<times> 's"

text \<open>
  What a proxy method can touch: the store of bucket states and the requests sent
  through the intra-cluster \<^verbatim>\<open>Client\<close> (its peer address, site, bucket and call).
\<close>

record PeerAddress =
  NodeID :: uint64
  Host :: string
  Port :: int

datatype client_call = MerkleTreeStats | MerkleTreeNodeKeys uint32

record 's world =
  buckets :: "bucket_ref \<Rightarrow> 's"
  client_requests :: "(PeerAddress \<times> string \<times> string \<times> client_call) list"

record RelayBucketProxy =
  relay_Bucket :: bucket_ref
  relay_SiteID :: string

record CloudLocalBucketProxy =
  local_Bucket :: bucket_ref
  local_SiteID :: string

record CloudRemoteBucketProxy =
  remote_PeerAddress :: PeerAddress
  remote_SiteID :: string
  remote_BucketName :: string

definition RelayBucketProxy_Merge ::
    "('s, 'p, 'u) Bucket \<Rightarrow> RelayBucketProxy \<Rightarrow> 'p \<Rightarrow> 's world \<Rightarrow> error option \<times> 's world" where
  "RelayBucketProxy_Merge B relayBucketProxy mergedKeys w =
     (case Bucket_Merge B mergedKeys (buckets w (relay_Bucket relayBucketProxy)) of
        (err, s') \<Rightarrow> (err, w\<lparr>buckets := (buckets w)(relay_Bucket relayBucketProxy := s')\<rparr>))"

definition RelayBucketProxy_Forget ::
    "('s, 'p, 'u) Bucket \<Rightarrow> RelayBucketProxy \<Rightarrow> byte list list \<Rightarrow> 's world
      \<Rightarrow> error option \<times> 's world" where
  "RelayBucketProxy_Forget B relayBucketProxy keys w =
     (case Bucket_Forget B keys (buckets w (relay_Bucket relayBucketProxy)) of
        (err, s') \<Rightarrow> (err, w\<lparr>buckets := (buckets w)(relay_Bucket relayBucketProxy := s')\<rparr>))"

definition CloudLocalBucketProxy_Name ::
    "('s, 'p, 'u) Bucket \<Rightarrow> CloudLocalBucketProxy \<Rightarrow> 's world \<Rightarrow> string" where
  "CloudLocalBucketProxy_Name B bucketProxy w =
     Bucket_Name B (buckets w (local_Bucket bucketProxy))"

definition CloudLocalBucketProxy_Merge ::
    "('s, 'p, 'u) Bucket \<Rightarrow> CloudLocalBucketProxy \<Rightarrow> 'p \<Rightarrow> 's world \<Rightarrow> error option \<times> 's world" where
  "CloudLocalBucketProxy_Merge B bucketProxy mergedKeys w = (None, w)"

definition CloudLocalBucketProxy_Forget ::
    "('s, 'p, 'u) Bucket \<Rightarrow> CloudLocalBucketProxy \<Rightarrow> byte list list \<Rightarrow> 's world
      \<Rightarrow> error option \<times> 's world" where
  "CloudLocalBucketProxy_Forget B bucketProxy keys w = (None, w)"

definition CloudRemoteBucketProxy_Name :: "CloudRemoteBucketProxy \<Rightarrow> string" where
  "CloudRemoteBucketProxy_Name bucketProxy = remote_BucketName bucketProxy"

text \<open>
  \<^verbatim>\<open>CloudRemoteBucketProxy.GetSyncChildren\<close> asks the peer for the keys under a Merkle
  node; \<open>reply\<close> is what the client returns. It is here to show what a remote proxy's
  read does to the world, next to its \<^verbatim>\<open>Merge\<close> and \<^verbatim>\<open>Forget\<close>.
\<close>

definition CloudRemoteBucketProxy_GetSyncChildren ::
    "CloudRemoteBucketProxy \<Rightarrow> uint32 \<Rightarrow> (error + 'v MerkleKeys) \<Rightarrow> 's world
      \<Rightarrow> (error + 'v CloudResponderMerkleNodeIterator) \<times> 's world" where
  "CloudRemoteBucketProxy_GetSyncChildren bucketProxy nodeID reply w =
     (let w' = w\<lparr>client_requests := client_requests w @
                 [(remote_PeerAddress bucketProxy, remote_SiteID bucketProxy,
                   remote_BucketName bucketProxy, MerkleTreeNodeKeys nodeID)]\<rparr>
      in case reply of
           Inl err \<Rightarrow> (Inl err, w')
         | Inr merkleKeys \<Rightarrow> (Inr \<lparr>MerkleKeys = merkleKeys, CurrentIndex = - 1\<rparr>, w'))"

definition CloudRemoteBucketProxy_Merge ::
    "CloudRemoteBucketProxy \<Rightarrow> 'p \<Rightarrow> 's world \<Rightarrow> error option \<times> 's world" where
  "CloudRemoteBucketProxy_Merge bucketProxy mergedKeys w = (None, w)"

definition CloudRemoteBucketProxy_Forget ::
    "CloudRemoteBucketProxy \<Rightarrow> byte list list \<Rightarrow> 's world \<Rightarrow> error option \<times> 's world" where
  "CloudRemoteBucketProxy_Forget bucketProxy keys w = (None, w)"

section \<open>APIClient (client/api\_client.go)\<close>

text \<open>
  The client's mutable field is \<^verbatim>\<open>nextServerIndex\<close>. The network is a parameter
  \<open>net\<close>: what \<^verbatim>\<open>http.NewRequest\<close>, \<^verbatim>\<open>httpClient.Do\<close> and \<^verbatim>\<open>ioutil.ReadAll\<close> give for a
  request. A method takes the client and the list of requests performed so far and
  returns both, updated, with its result. The \<^verbatim>\<open>context.Context\<close> argument only travels
  with the request and is left out.
\<close>

record APIClient =
  servers :: "string list"
  nextServerIndex :: nat

record http_request =
  httpVerb :: string
  url :: string
  requestBody :: "byte list option"

datatype http_reply =
    NewRequestFailed error
  | DoFailed error
  | Replied nat "error + byte list"

text \<open>\<^verbatim>\<open>Entry\<close>, \<^verbatim>\<open>Batch\<close> and \<^verbatim>\<open>EntryIterator\<close> are declared outside the files at hand;
  of \<^verbatim>\<open>EntryIterator\<close> only the zero value \<^verbatim>\<open>EntryIterator{}\<close> occurs.\<close>

datatype EntryIterator = EntryIterator_zero

definition APIClient_New :: "string list \<Rightarrow> APIClient" where
  "APIClient_New config_Servers = \<lparr>servers = config_Servers, nextServerIndex = 0\<rparr>"

text \<open>
  \<^verbatim>\<open>nextServer\<close>: the empty string when there are no servers; otherwise the server at
  \<^verbatim>\<open>nextServerIndex\<close>, which then moves on cyclically. An index outside the slice is a
  panic (\<open>None\<close>); \<^verbatim>\<open>New\<close> and \<^verbatim>\<open>nextServer\<close> keep the index inside.
\<close>

definition nextServer :: "APIClient \<Rightarrow> (string \<times> APIClient) option" where
  "nextServer client =
     (if length (servers client) = 0 then Some ([], client)
      else if nextServerIndex client \<ge> length (servers client) then None
      else Some (servers client ! nextServerIndex client,
                 client\<lparr>nextServerIndex :=
                          (nextServerIndex client + 1) mod length (servers client)\<rparr>))"

text \<open>
  \<^verbatim>\<open>sendRequest\<close>: a request that could be built is performed, and its reply decides
  the result: a transport error, an \<^verbatim>\<open>ErrorStatusCode\<close> for a status other than 200, or the
  body.
\<close>

definition sendRequest ::
    "(http_request \<Rightarrow> http_reply) \<Rightarrow> string \<Rightarrow> string \<Rightarrow> byte list option
      \<Rightarrow> APIClient \<times> http_request list
      \<Rightarrow> ((error + byte list) \<times> APIClient \<times> http_request list) option" where
  "sendRequest net verb endpointURL body st =
     (case st of (client, performed) \<Rightarrow>
      (case nextServer client of
         None \<Rightarrow> None
       | Some (server, client') \<Rightarrow>
       (let request = \<lparr>httpVerb = verb, url = ''http://'' @ server @ endpointURL,
                        requestBody = body\<rparr>
        in case net request of
             NewRequestFailed err \<Rightarrow> Some (Inl err, client', performed)
           | DoFailed err \<Rightarrow> Some (Inl err, client', performed @ [request])
           | Replied statusCode read \<Rightarrow>
               (if statusCode \<noteq> 200
                then (case read of
                        Inl err \<Rightarrow> Some (Inl err, client', performed @ [request])
                      | Inr errorMessage \<Rightarrow>
                          Some (Inl (ErrorStatusCode
                                       (map (\<lambda>b. char_of (unat b)) errorMessage) statusCode),
                                client', performed @ [request]))
                else (case read of
                        Inl err \<Rightarrow> Some (Inl err, client', performed @ [request])
                      | Inr responseBody \<Rightarrow>
                          Some (Inr responseBody, client', performed @ [request]))))))"

definition APIClient_AddSite ::
    "(http_request \<Rightarrow> http_reply) \<Rightarrow> string \<Rightarrow> APIClient \<times> http_request list
      \<Rightarrow> (error option \<times> APIClient \<times> http_request list) option" where
  "APIClient_AddSite net siteID st =
     (case sendRequest net ''PUT'' (''/sites/'' @ siteID) None st of
        None \<Rightarrow> None
      | Some (Inl err, st') \<Rightarrow> Some (Some err, st')
      | Some (Inr _, st') \<Rightarrow> Some (None, st'))"

definition APIClient_Batch ::
    "string \<Rightarrow> 'b \<Rightarrow> APIClient \<times> http_request list
      \<Rightarrow> error option \<times> APIClient \<times> http_request list" where
  "APIClient_Batch siteID batch st = (None, st)"

definition APIClient_Get ::
    "string \<Rightarrow> string list \<Rightarrow> APIClient \<times> http_request list
      \<Rightarrow> ('e list option \<times> error option) \<times> APIClient \<times> http_request list" where
  "APIClient_Get siteID keys st = ((None, None), st)"

definition APIClient_GetMatches ::
    "string \<Rightarrow> string list \<Rightarrow> APIClient \<times> http_request list
      \<Rightarrow> (EntryIterator \<times> error option) \<times> APIClient \<times> http_request list" where
  "APIClient_GetMatches siteID keys st = ((EntryIterator_zero, None), st)"

section \<open>The node's local buckets and the cluster controller\<close>

text \<open>
  \<^verbatim>\<open>PartitionPool\<close>, \<^verbatim>\<open>Partition\<close>, \<^verbatim>\<open>SitePool\<close>, \<^verbatim>\<open>Site\<close> and \<^verbatim>\<open>ClusterController\<close> are
  declared outside the files at hand. The code only looks things up in them, so they are
  parameters: \<^verbatim>\<open>partitionPool.Get\<close>, \<^verbatim>\<open>partition.Sites().Acquire\<close> and
  \<^verbatim>\<open>site.Buckets().Get\<close> (\<open>None\<close> for a nil result), and the controller's local node ID
  and the answers of its methods. The reference counting behind \<^verbatim>\<open>Acquire\<close> is not
  modelled.
\<close>

record ('pt, 'st) local_pools =
  PartitionPool_Get :: "uint64 \<Rightarrow> 'pt option"
  Sites_Acquire :: "'pt \<Rightarrow> string \<Rightarrow> 'st option"
  Buckets_Get :: "'st \<Rightarrow> string \<Rightarrow> bucket_ref option"

record ClusterController =
  LocalNodeID :: uint64
  RelaySite :: "string \<Rightarrow> string"
  Partition :: "string \<Rightarrow> uint64"
  PartitionOwners :: "uint64 \<Rightarrow> uint64 list"
  ClusterMemberAddress :: "uint64 \<Rightarrow> PeerAddress"
  LocalNodeHoldsPartition :: "uint64 \<Rightarrow> bool"

section \<open>ClusterNode.Batch and ClusterNode.Merge (package node)\<close>

definition ClusterNode_Batch ::
    "('s, 'p, 'u) Bucket \<Rightarrow> ('pt, 'st) local_pools \<Rightarrow> ClusterController
      \<Rightarrow> uint64 \<Rightarrow> string \<Rightarrow> string \<Rightarrow> 'u \<Rightarrow> 's world
      \<Rightarrow> ('p option \<times> error option) \<times> 's world" where
  "ClusterNode_Batch B pools cc partitionNumber siteID bucketName updateBatch w =
     (case PartitionPool_Get pools partitionNumber of
        None \<Rightarrow> ((None, Some ENoSuchPartition), w)
      | Some part \<Rightarrow>
     (case Sites_Acquire pools part siteID of
        None \<Rightarrow> ((None, Some ENoSuchSite), w)
      | Some site \<Rightarrow>
     (case Buckets_Get pools site bucketName of
        None \<Rightarrow> ((None, Some ENoSuchBucket), w)
      | Some bucket \<Rightarrow>
     (if \<not> LocalNodeHoldsPartition cc partitionNumber
      then ((None, Some ENoQuorum), w)
      else (case Bucket_Batch B updateBatch (buckets w bucket) of
              ((patch, err), s') \<Rightarrow>
                (if err \<noteq> None
                 then ((None, err), w\<lparr>buckets := (buckets w)(bucket := s')\<rparr>)
                 else ((patch, None), w\<lparr>buckets := (buckets w)(bucket := s')\<rparr>)))))))"

definition ClusterNode_Merge ::
    "('s, 'p, 'u) Bucket \<Rightarrow> ('pt, 'st) local_pools \<Rightarrow> ClusterController
      \<Rightarrow> uint64 \<Rightarrow> string \<Rightarrow> string \<Rightarrow> 'p \<Rightarrow> 's world
      \<Rightarrow> error option \<times> 's world" where
  "ClusterNode_Merge B pools cc partitionNumber siteID bucketName patch w =
     (case PartitionPool_Get pools partitionNumber of
        None \<Rightarrow> (Some ENoSuchPartition, w)
      | Some part \<Rightarrow>
     (case Sites_Acquire pools part siteID of
        None \<Rightarrow> (Some ENoSuchSite, w)
      | Some site \<Rightarrow>
     (case Buckets_Get pools site bucketName of
        None \<Rightarrow> (Some ENoSuchBucket, w)
      | Some bucket \<Rightarrow>
     (case Bucket_Merge B patch (buckets w bucket) of
        (err, s') \<Rightarrow>
          (if err \<noteq> None
           then (err, w\<lparr>buckets := (buckets w)(bucket := s')\<rparr>)
           else if \<not> LocalNodeHoldsPartition cc partitionNumber
           then (Some ENoQuorum, w\<lparr>buckets := (buckets w)(bucket := s')\<rparr>)
           else (None, w\<lparr>buckets := (buckets w)(bucket := s')\<rparr>))))))"

text \<open>The bucket a \<^verbatim>\<open>(partition, site, bucket name)\<close> triple resolves to locally.\<close>

definition local_bucket ::
    "('pt, 'st) local_pools \<Rightarrow> uint64 \<Rightarrow> string \<Rightarrow> string \<Rightarrow> bucket_ref option" where
  "local_bucket pools partitionNumber siteID bucketName =
     (case PartitionPool_Get pools partitionNumber of
        None \<Rightarrow> None
      | Some part \<Rightarrow>
          (case Sites_Acquire pools part siteID of
             None \<Rightarrow> None
           | Some site \<Rightarrow> Buckets_Get pools site bucketName))"

section \<open>CloudBucketProxyFactory.CreateBucketProxy (package sync)\<close>

text \<open>
  The proxy the factory returns is a \<^verbatim>\<open>CloudLocalBucketProxy\<close> or a
  \<^verbatim>\<open>CloudRemoteBucketProxy\<close>. The value of \<^verbatim>\<open>rand.Uint32()\<close> is a parameter.
  \<^verbatim>\<open>uint32(len(nodeIDs))\<close> truncates the length to 32 bits; where that is zero for a
  non-empty list the modulo panics (\<open>None\<close>).
\<close>

datatype BucketProxy = Local CloudLocalBucketProxy | Remote CloudRemoteBucketProxy

text \<open>The position in the owner list that a value of \<^verbatim>\<open>rand.Uint32()\<close> selects.\<close>

definition chosen_index :: "nat \<Rightarrow> uint32 \<Rightarrow> nat" where
  "chosen_index n rand_Uint32 = unat (rand_Uint32 mod of_nat n)"

definition CloudBucketProxyFactory_CreateBucketProxy ::
    "ClusterController \<Rightarrow> ('pt, 'st) local_pools \<Rightarrow> uint32 \<Rightarrow> string \<Rightarrow> string
      \<Rightarrow> (error + BucketProxy) option" where
  "CloudBucketProxyFactory_CreateBucketProxy cc pools rand_Uint32 peerID bucketName =
     (let siteID = RelaySite cc peerID;
          partitionNumber = Partition cc siteID;
          nodeIDs = PartitionOwners cc partitionNumber
      in if length nodeIDs = 0 then Some (Inl (ErrorString ''No node owns this partition''))
         else if (of_nat (length nodeIDs) :: uint32) = 0 then None
         else
           (let nodeID = nodeIDs ! chosen_index (length nodeIDs) rand_Uint32
            in if LocalNodeID cc = nodeID
               then (case PartitionPool_Get pools partitionNumber of
                       None \<Rightarrow> Some (Inl ENoLocalBucket)
                     | Some part \<Rightarrow>
                         (case Sites_Acquire pools part siteID of
                            None \<Rightarrow> Some (Inl ENoLocalBucket)
                          | Some site \<Rightarrow>
                              (case Buckets_Get pools site bucketName of
                                 None \<Rightarrow> Some (Inl ENoLocalBucket)
                               | Some bucket \<Rightarrow>
                                   Some (Inr (Local \<lparr>local_Bucket = bucket,
                                                      local_SiteID = siteID\<rparr>)))))
               else Some (Inr (Remote \<lparr>remote_PeerAddress = ClusterMemberAddress cc nodeID,
                                        remote_SiteID = siteID,
                                        remote_BucketName = bucketName\<rparr>))))"

text \<open>The values of \<^verbatim>\<open>rand.Uint32()\<close> for which the factory returns a given proxy.\<close>

definition selected_by ::
    "ClusterController \<Rightarrow> ('pt, 'st) local_pools \<Rightarrow> string \<Rightarrow> string \<Rightarrow> BucketProxy
      \<Rightarrow> uint32 set" where
  "selected_by cc pools peerID bucketName proxy =
     {r. CloudBucketProxyFactory_CreateBucketProxy cc pools r peerID bucketName = Some (Inr proxy)}"

section \<open>A small concrete node, for the witnesses\<close>

text \<open>A bucket whose state is the list of numbers merged or written into it.\<close>

definition example_Bucket :: "(nat list, nat list, nat) Bucket" where
  "example_Bucket =
     \<lparr>Bucket_Name = (\<lambda>s. ''default''),
      Bucket_Merge = (\<lambda>patch s. (None, patch @ s)),
      Bucket_Forget = (\<lambda>keys s. (None, s)),
      Bucket_Batch = (\<lambda>u s. ((Some [u], None), u # s))\<rparr>"

definition example_pools :: "(nat, nat) local_pools" where
  "example_pools =
     \<lparr>PartitionPool_Get = (\<lambda>p. if p = 7 then Some 0 else None),
      Sites_Acquire = (\<lambda>pt siteID. if siteID = ''site1'' then Some 0 else None),
      Buckets_Get = (\<lambda>st name. if name = ''default'' then Some 0 else None)\<rparr>"

definition example_controller :: "uint64 \<Rightarrow> uint64 list \<Rightarrow> bool \<Rightarrow> ClusterController" where
  "example_controller self owners holds =
     \<lparr>LocalNodeID = self,
      RelaySite = (\<lambda>peerID. ''site1''),
      Partition = (\<lambda>siteID. 7),
      PartitionOwners = (\<lambda>p. owners),
      ClusterMemberAddress = (\<lambda>n. \<lparr>NodeID = n, Host = ''10.0.0.1'', Port = 8080\<rparr>),
      LocalNodeHoldsPartition = (\<lambda>p. holds)\<rparr>"

definition example_world :: "nat list world" where
  "example_world = \<lparr>buckets = (\<lambda>b. []), client_requests = []\<rparr>"

definition example_remote :: "uint64 \<Rightarrow> BucketProxy" where
  "example_remote n =
     Remote \<lparr>remote_PeerAddress = \<lparr>NodeID = n, Host = ''10.0.0.1'', Port = 8080\<rparr>,
             remote_SiteID = ''site1'', remote_BucketName = ''default''\<rparr>"

section \<open>Decommissioning (package node)\<close>

text \<open>
  A function that waits in a \<^verbatim>\<open>select\<close> may never return: \<open>Blocks\<close> is that outcome,
  \<open>Returns\<close> carries the returned value.
\<close>

datatype 'a outcome = Blocks | Returns 'a

text \<open>
  \<^verbatim>\<open>NodeConfig\<close>, \<^verbatim>\<open>PartitionReplica\<close> and \<^verbatim>\<open>ClusterUpdateNodeBody\<close> are declared outside
  the files at hand; the records hold the fields \<^verbatim>\<open>decommission\<close> reads and writes.
\<close>

record NodeConfig =
  NodeConfig_Capacity :: uint64
  NodeConfig_Address :: PeerAddress

record PartitionReplica =
  PartitionReplica_Partition :: uint64
  PartitionReplica_Replica :: uint64

datatype cluster_command = ClusterUpdateNodeBody uint64 NodeConfig

text \<open>
  The channel on which the \<^verbatim>\<open>select\<close> of \<^verbatim>\<open>decommission\<close> receives:
  \<^verbatim>\<open>node.leftCluster\<close>, \<^verbatim>\<open>node.empty\<close> or \<^verbatim>\<open>ctx.Done()\<close>.
\<close>

datatype drain_signal = LeftCluster | Empty | CtxDone

text \<open>
  What \<^verbatim>\<open>decommission\<close> does to the rest of the node, in the order it does it: the
  cluster command it proposes, the calls to the transfer agent and to the partitions,
  the case its \<^verbatim>\<open>select\<close> took, and the \<^verbatim>\<open>RemoveNode\<close> proposal.
\<close>

datatype node_action =
    ClusterCommand cluster_command
  | StopAllTransfers
  | EnableOutgoingTransfers uint64
  | LockWrites uint64
  | Select drain_signal
  | RemoveNode uint64

text \<open>
  What the surroundings answer during one run of \<^verbatim>\<open>decommission\<close>: the local node's
  config in the cluster state (\<open>None\<close> for nil), the result of the capacity command, the
  partition replicas still held after it, \<^verbatim>\<open>partitionPool.Get\<close> and
  \<^verbatim>\<open>partition.Partition()\<close>, the channel on which the \<^verbatim>\<open>select\<close> receives (\<open>None\<close>: none
  ever becomes ready), and the result of \<^verbatim>\<open>RemoveNode\<close>.
\<close>

record 'pt decommission_env =
  LocalNodeConfig :: "NodeConfig option"
  ClusterCommand_result :: "error option"
  LocalNodeHeldPartitionReplicas :: "PartitionReplica list"
  held_partition :: "uint64 \<Rightarrow> 'pt option"
  Partition_number :: "'pt \<Rightarrow> uint64"
  drain_select :: "drain_signal option"
  RemoveNode_result :: "error option"

text \<open>Step 2/4: the loop that write-locks the partitions still held.\<close>

fun lock_held_partitions :: "'pt decommission_env \<Rightarrow> PartitionReplica list \<Rightarrow> node_action list" where
  "lock_held_partitions env [] = []"
| "lock_held_partitions env (partitionReplica # rest) =
     (case held_partition env (PartitionReplica_Partition partitionReplica) of
        None \<Rightarrow> lock_held_partitions env rest
      | Some part \<Rightarrow>
          EnableOutgoingTransfers (Partition_number env part)
            # LockWrites (Partition_number env part)
            # lock_held_partitions env rest)"

text \<open>Step 1/4: the capacity command, skipped when the capacity is already 0.\<close>

definition give_up_tokens ::
    "'pt decommission_env \<Rightarrow> uint64 \<Rightarrow> NodeConfig \<Rightarrow> error option \<times> node_action list" where
  "give_up_tokens env nodeID localNodeConfig =
     (if NodeConfig_Capacity localNodeConfig \<noteq> 0
      then (ClusterCommand_result env,
            [ClusterCommand (ClusterUpdateNodeBody nodeID
               \<lparr>NodeConfig_Capacity = 0,
                NodeConfig_Address = NodeConfig_Address localNodeConfig\<rparr>)])
      else (None, []))"

text \<open>Step 4/4: \<^verbatim>\<open>RemoveNode\<close>, then \<^verbatim>\<open>return EDecommissioned\<close>.\<close>

definition leave_cluster ::
    "'pt decommission_env \<Rightarrow> uint64 \<Rightarrow> node_action list \<Rightarrow> (error \<times> node_action list) outcome" where
  "leave_cluster env nodeID tr =
     (case RemoveNode_result env of
        Some err \<Rightarrow> Returns (err, tr @ [RemoveNode nodeID])
      | None \<Rightarrow> Returns (EDecommissioned, tr @ [RemoveNode nodeID]))"

text \<open>
  \<^verbatim>\<open>decommission\<close>: the returned error with the actions taken. Step 3/4 is the
  \<^verbatim>\<open>select\<close>, entered only when partition replicas are still held.
\<close>

definition decommission ::
    "'pt decommission_env \<Rightarrow> uint64 \<Rightarrow> (error \<times> node_action list) outcome" where
  "decommission env nodeID =
     (case LocalNodeConfig env of
        None \<Rightarrow> Returns (ERemoved, [])
      | Some localNodeConfig \<Rightarrow>
          (case give_up_tokens env nodeID localNodeConfig of
             (Some err, tr1) \<Rightarrow> Returns (err, tr1)
           | (None, tr1) \<Rightarrow>
               (let tr2 = tr1 @ [StopAllTransfers];
                    heldPartitionReplicas = LocalNodeHeldPartitionReplicas env
                in if length heldPartitionReplicas > 0
                   then (let tr3 = tr2 @ lock_held_partitions env heldPartitionReplicas
                         in case drain_select env of
                              None \<Rightarrow> Blocks
                            | Some LeftCluster \<Rightarrow> Returns (ERemoved, tr3 @ [Select LeftCluster])
                            | Some Empty \<Rightarrow> leave_cluster env nodeID (tr3 @ [Select Empty])
                            | Some CtxDone \<Rightarrow> Returns (ECancelled, tr3 @ [Select CtxDone]))
                   else leave_cluster env nodeID tr2)))"

section \<open>ClusterNode.LeaveCluster (package node)\<close>

text \<open>
  Channels and cancellable contexts are objects with an identity: each
  \<^verbatim>\<open>make(chan ...)\<close> and \<^verbatim>\<open>context.WithCancel\<close> takes the next unused number. The node's
  fields that \<^verbatim>\<open>LeaveCluster\<close> touches are \<^verbatim>\<open>leftClusterResult\<close>, \<^verbatim>\<open>empty\<close> and
  \<^verbatim>\<open>shutdownDecommissioner\<close> (\<open>None\<close> for nil). Around them: the Raft store's
  decommissioning flag and the number of \<^verbatim>\<open>SetDecommissioningFlag\<close> calls, the decommission
  goroutines started (by their context), the content of each error channel, and the
  actions of finished decommission runs. \<^verbatim>\<open>LeaveCluster\<close> holds \<^verbatim>\<open>node.lock\<close> throughout,
  so it is one step on this state.
\<close>

type_synonym chan = nat
type_synonym ctx = nat

record ClusterNode =
  leftClusterResult :: "chan option"
  empty :: "chan option"
  shutdownDecommissioner :: "ctx option"

record node_state =
  node :: ClusterNode
  allocated :: nat
  decommissioningFlag :: bool
  SetDecommissioningFlag_calls :: nat
  decommission_tasks :: "ctx list"
  channel :: "chan \<Rightarrow> error list"
  actions :: "node_action list"

definition waitForEmpty :: "node_state \<Rightarrow> node_state" where
  "waitForEmpty st =
     st\<lparr>node := (node st)\<lparr>empty := Some (allocated st)\<rparr>, allocated := allocated st + 1\<rparr>"

text \<open>
  \<^verbatim>\<open>LeaveCluster\<close>; the result of \<^verbatim>\<open>raftStore.SetDecommissioningFlag()\<close> is a parameter.
\<close>

definition LeaveCluster ::
    "error option \<Rightarrow> node_state \<Rightarrow> (error option \<times> chan option) \<times> node_state" where
  "LeaveCluster SetDecommissioningFlag_result st0 =
     (let st = waitForEmpty st0
      in if shutdownDecommissioner (node st) \<noteq> None
         then ((None, leftClusterResult (node st)), st)
         else
           (case SetDecommissioningFlag_result of
              Some err \<Rightarrow>
                ((Some err, None),
                 st\<lparr>SetDecommissioningFlag_calls := SetDecommissioningFlag_calls st + 1\<rparr>)
            | None \<Rightarrow>
                (let cancel = allocated st;
                     result = allocated st + 1
                 in ((None, Some result),
                     st\<lparr>node := (node st)\<lparr>shutdownDecommissioner := Some cancel,
                                           leftClusterResult := Some result\<rparr>,
                        allocated := allocated st + 2,
                        channel := (channel st)(result := []),
                        decommissioningFlag := True,
                        SetDecommissioningFlag_calls := SetDecommissioningFlag_calls st + 1,
                        decommission_tasks := decommission_tasks st @ [cancel]\<rparr>))))"

text \<open>
  The goroutine \<^verbatim>\<open>node.leftClusterResult <- node.decommission(ctx)\<close>: when
  \<^verbatim>\<open>decommission\<close> returns, its result is sent on the (buffered) result channel.
\<close>

definition decommission_task :: "'pt decommission_env \<Rightarrow> uint64 \<Rightarrow> node_state \<Rightarrow> node_state" where
  "decommission_task env nodeID st =
     (case decommission env nodeID of
        Blocks \<Rightarrow> st
      | Returns (err, tr) \<Rightarrow>
          (case leftClusterResult (node st) of
             None \<Rightarrow> st\<lparr>actions := actions st @ tr\<rparr>
           | Some c \<Rightarrow> st\<lparr>actions := actions st @ tr,
                          channel := (channel st)(c := channel st c @ [err])\<rparr>))"

text \<open>The actions of a decommission that runs to the end.\<close>

definition decommission_sequence :: "'pt decommission_env \<Rightarrow> uint64 \<Rightarrow> NodeConfig \<Rightarrow> node_action list" where
  "decommission_sequence env nodeID localNodeConfig =
     (if NodeConfig_Capacity localNodeConfig \<noteq> 0
      then [ClusterCommand (ClusterUpdateNodeBody nodeID
              \<lparr>NodeConfig_Capacity = 0,
               NodeConfig_Address = NodeConfig_Address localNodeConfig\<rparr>)]
      else [])
     @ [StopAllTransfers]
     @ (if LocalNodeHeldPartitionReplicas env \<noteq> []
        then lock_held_partitions env (LocalNodeHeldPartitionReplicas env) @ [Select Empty]
        else [])
     @ [RemoveNode nodeID]"

section \<open>ClusterNode.joinCluster (package node)\<close>

text \<open>Go's \<^verbatim>\<open>time.Second\<close> and \<^verbatim>\<open>time.Minute\<close>, in nanoseconds.\<close>

definition time_Second :: nat where
  "time_Second = 1000000000"

definition time_Minute :: nat where
  "time_Minute = 60 * time_Second"

text \<open>
  What a \<^verbatim>\<open>select\<close> of \<^verbatim>\<open>joinCluster\<close> can receive: a value on \<^verbatim>\<open>node.joinedCluster\<close>,
  the closing of \<^verbatim>\<open>node.shutdown\<close>, or the firing of \<^verbatim>\<open>time.After(d)\<close>.
\<close>

datatype join_signal = JoinedCluster | Shutdown | After nat

text \<open>
  A \<^verbatim>\<open>select\<close> statement: its cases, each with what the function does from there, and
  the signal that arrives first. It blocks when no signal arrives or the signal is not
  one of its cases.
\<close>

definition go_select :: "(join_signal \<times> 'a outcome) list \<Rightarrow> join_signal option \<Rightarrow> 'a outcome" where
  "go_select cases fired =
     (case fired of
        None \<Rightarrow> Blocks
      | Some s \<Rightarrow> (case map_of cases s of None \<Rightarrow> Blocks | Some r \<Rightarrow> r))"

text \<open>
  One round of the loop, as the surroundings decide it: whether the watcher goroutine
  received \<^verbatim>\<open>joinedCluster\<close> while the \<^verbatim>\<open>AddNode\<close> request ran (\<^verbatim>\<open>wasAdded\<close>), the
  request's error, and the signal that arrives first at the \<^verbatim>\<open>select\<close> that follows.
\<close>

record join_attempt =
  wasAdded :: bool
  AddNode_result :: "error option"
  fired :: "join_signal option"

text \<open>
  \<^verbatim>\<open>joinCluster\<close> over the rounds the surroundings provide; with none left, the
  \<^verbatim>\<open>AddNode\<close> request never returns.
\<close>

fun joinCluster :: "join_attempt list \<Rightarrow> error option outcome" where
  "joinCluster [] = Blocks"
| "joinCluster (a # rest) =
     (if wasAdded a then Returns None
      else if (case AddNode_result a of
                 Some (DBerror m c) \<Rightarrow> DBerror m c = EDuplicateNodeID
               | _ \<Rightarrow> False)
      then go_select
             [(JoinedCluster, Returns None),
              (Shutdown, Returns (Some EStopped)),
              (After time_Minute, Returns (Some EDuplicateNodeID))] (fired a)
      else if AddNode_result a \<noteq> None
      then go_select
             [(JoinedCluster, Returns None),
              (Shutdown, Returns (Some EStopped)),
              (After (time_Second * ClusterJoinRetryTimeout), joinCluster rest)] (fired a)
      else go_select
             [(JoinedCluster, Returns None),
              (Shutdown, Returns (Some EStopped))] (fired a))"

text \<open>A round that ends in the retry timer: the request failed with an error other than
  \<^verbatim>\<open>EDuplicateNodeID\<close> and \<^verbatim>\<open>time.After(time.Second * ClusterJoinRetryTimeout)\<close> fired.\<close>

definition retries :: "join_attempt \<Rightarrow> bool" where
  "retries a =
     (\<not> wasAdded a
      \<and> (case AddNode_result a of None \<Rightarrow> False | Some e \<Rightarrow> e \<noteq> EDuplicateNodeID)
      \<and> fired a = Some (After (time_Second * ClusterJoinRetryTimeout)))"

section \<open>Bucket update monitor (package bucket)\<close>

text \<open>
  Modelled from the spec: \<^verbatim>\<open>data.Row\<close> is declared outside the files at hand; the
  monitor's tests build it from \<^verbatim>\<open>Key\<close>, \<^verbatim>\<open>LocalVersion\<close> and \<^verbatim>\<open>Siblings\<close>. The spec
  puts no bound on versions, so a version is a natural number.
\<close>

record 'v Row =
  Row_Key :: string
  Row_LocalVersion :: nat
  Row_Siblings :: 'v

text \<open>
  Modelled from the spec: the \<^verbatim>\<open>Monitor\<close> itself is outside the files at hand (only
  its tests are there). Its state is the last delivered version and the updates buffered
  because they arrived ahead of their turn.
\<close>

record 'v Monitor =
  lastDeliveredVersion :: nat
  pending :: "'v Row list"

text \<open>Modelled from the spec: \<^verbatim>\<open>NewMonitor(startVersion)\<close>, with nothing buffered.\<close>

definition NewMonitor :: "nat \<Rightarrow> 'v Monitor" where
  "NewMonitor startVersion = \<lparr>lastDeliveredVersion = startVersion, pending = []\<rparr>"

lemma find_Some_filter_shorter:
  "find P xs = Some u \<Longrightarrow> \<not> Q u \<Longrightarrow> length (filter Q xs) < length xs"
  by (metis find_Some_iff length_filter_less nth_mem)

text \<open>
  Modelled from the spec: "buffered until the gap fills, then drained in order". While
  the buffer holds an update with the next version, it is delivered, and buffered updates
  that are no longer ahead of the last delivered version are dropped.
\<close>

function drain_pending :: "'v Monitor \<Rightarrow> 'v Row list \<times> 'v Monitor" where
  "drain_pending m =
     (case find (\<lambda>u. Row_LocalVersion u = lastDeliveredVersion m + 1) (pending m) of
        None \<Rightarrow> ([], m)
      | Some u \<Rightarrow>
          (case drain_pending
                  (m\<lparr>lastDeliveredVersion := lastDeliveredVersion m + 1,
                     pending := filter (\<lambda>w. lastDeliveredVersion m + 1 < Row_LocalVersion w)
                                  (pending m)\<rparr>) of
             (rs, m') \<Rightarrow> (u # rs, m')))"
  by pat_completeness auto
termination
proof (relation "measure (\<lambda>m. length (pending m))")
  show "wf (measure (\<lambda>m. length (pending m)))" by simp
next
  fix m :: "'v Monitor" and u
  assume f: "find (\<lambda>u. Row_LocalVersion u = lastDeliveredVersion m + 1) (pending m) = Some u"
  then have "Row_LocalVersion u = lastDeliveredVersion m + 1"
    by (auto simp: find_Some_iff)
  then have "\<not> lastDeliveredVersion m + 1 < Row_LocalVersion u" by simp
  from find_Some_filter_shorter
         [where Q = "\<lambda>w. lastDeliveredVersion m + 1 < Row_LocalVersion w", OF f this]
  show "(m\<lparr>lastDeliveredVersion := lastDeliveredVersion m + 1,
            pending := filter (\<lambda>w. lastDeliveredVersion m + 1 < Row_LocalVersion w) (pending m)\<rparr>, m)
        \<in> measure (\<lambda>m. length (pending m))"
    by simp
qed

declare drain_pending.simps [simp del]

text \<open>
  Modelled from the spec: \<^verbatim>\<open>Notify\<close>, returning the updates it delivers, in order.
  Version 0 is delivered only while the last delivered version is 0; a version up to the
  last delivered one is discarded; the next version is delivered and the buffer drained;
  a later version is buffered.
\<close>

definition Notify :: "'v Monitor \<Rightarrow> 'v Row \<Rightarrow> 'v Row list \<times> 'v Monitor" where
  "Notify m u =
     (if Row_LocalVersion u = 0
      then (if lastDeliveredVersion m = 0 then ([u], m) else ([], m))
      else if Row_LocalVersion u \<le> lastDeliveredVersion m then ([], m)
      else if Row_LocalVersion u = lastDeliveredVersion m + 1
      then (case drain_pending (m\<lparr>lastDeliveredVersion := Row_LocalVersion u\<rparr>) of
              (rs, m') \<Rightarrow> (u # rs, m'))
      else ([], m\<lparr>pending := pending m @ [u]\<rparr>))"

text \<open>Modelled from the spec: a sequence of \<^verbatim>\<open>Notify\<close> calls and all they deliver.\<close>

fun Notify_all :: "'v Monitor \<Rightarrow> 'v Row list \<Rightarrow> 'v Row list \<times> 'v Monitor" where
  "Notify_all m [] = ([], m)"
| "Notify_all m (u # us) =
     (case Notify m u of
        (rs, m') \<Rightarrow> (case Notify_all m' us of (rs', m'') \<Rightarrow> (rs @ rs', m'')))"

text \<open>
  Modelled from the spec: a listener receives, in order, the delivered updates whose
  key it listens for; \<open>listens\<close> stands for the match of its keys and prefixes.
\<close>

definition received :: "('v Row \<Rightarrow> bool) \<Rightarrow> 'v Row list \<Rightarrow> 'v Row list" where
  "received listens delivered = filter listens delivered"

text \<open>No buffered update is the next one or older: the buffer holds only later versions.\<close>

definition gap_free :: "'v Monitor \<Rightarrow> bool" where
  "gap_free m = list_all (\<lambda>w. lastDeliveredVersion m + 1 < Row_LocalVersion w) (pending m)"

section \<open>Concrete runs, for the witnesses\<close>

definition example_node_state :: node_state where
  "example_node_state =
     \<lparr>node = \<lparr>leftClusterResult = None, empty = None, shutdownDecommissioner = None\<rparr>,
      allocated = 0,
      decommissioningFlag = False,
      SetDecommissioningFlag_calls = 0,
      decommission_tasks = [],
      channel = (\<lambda>c. []),
      actions = []\<rparr>"

definition example_NodeConfig :: NodeConfig where
  "example_NodeConfig =
     \<lparr>NodeConfig_Capacity = 10,
      NodeConfig_Address = \<lparr>NodeID = 2, Host = ''10.0.0.2'', Port = 8080\<rparr>\<rparr>"

definition example_decommission_env :: "drain_signal option \<Rightarrow> nat decommission_env" where
  "example_decommission_env signal =
     \<lparr>LocalNodeConfig = Some example_NodeConfig,
      ClusterCommand_result = None,
      LocalNodeHeldPartitionReplicas =
        [\<lparr>PartitionReplica_Partition = 7, PartitionReplica_Replica = 0\<rparr>],
      held_partition = (\<lambda>p. if p = 7 then Some 0 else None),
      Partition_number = (\<lambda>pt. 7),
      drain_select = signal,
      RemoveNode_result = None\<rparr>"

definition example_attempt :: "error option \<Rightarrow> join_signal option \<Rightarrow> join_attempt" where
  "example_attempt err s = \<lparr>wasAdded = False, AddNode_result = err, fired = s\<rparr>"

definition example_Row :: "string \<Rightarrow> nat \<Rightarrow> unit Row" where
  "example_Row k v = \<lparr>Row_Key = k, Row_LocalVersion = v, Row_Siblings = ()\<rparr>"

section \<open>Properties of the storage prefixes\<close>

lemma sitePoolStorePrefix_bytes:
  "sitePoolStorePrefix p =
     Some [1, ucast (drop_bit 56 p), ucast (drop_bit 48 p), ucast (drop_bit 40 p),
           ucast (drop_bit 32 p), ucast (drop_bit 24 p), ucast (drop_bit 16 p),
           ucast (drop_bit 8 p), ucast p]"
  by (simp add: sitePoolStorePrefix_def BigEndian_PutUint64_def SiteStoreStoragePrefix_def
      eval_nat_numeral)

lemma unat_byte_of_uint64:
  "unat (ucast (drop_bit k (p::uint64)) :: byte) = (unat p div 2 ^ k) mod 256"
  unfolding unsigned_ucast_eq unat_drop_bit_eq
  by (simp add: take_bit_eq_mod drop_bit_eq_div)

lemma byte_step: "(n div 2 ^ (k + 8)) * 256 + (n div 2 ^ k) mod 256 = n div 2 ^ k" for n :: nat
proof -
  have "n div 2 ^ (k + 8) = (n div 2 ^ k) div 256"
    by (simp add: power_add div_mult2_eq)
  then show ?thesis by simp
qed

lemma big_endian_value_uint64:
  "big_endian_value [ucast (drop_bit 56 p), ucast (drop_bit 48 p), ucast (drop_bit 40 p),
           ucast (drop_bit 32 p), ucast (drop_bit 24 p), ucast (drop_bit 16 p),
           ucast (drop_bit 8 p), ucast (p::uint64)] = unat p"
proof -
  define n where "n = unat p"
  have lt: "n < 2 ^ 64"
    unfolding n_def using unsigned_less[of p, where 'a=nat] by simp
  have b0: "unat (ucast p :: byte) = (n div 2 ^ 0) mod 256"
    using unat_byte_of_uint64[of 0 p] by (simp add: n_def)
  have top: "(n div 2 ^ 56) mod 256 = n div 2 ^ 56"
    using lt by (simp add: less_mult_imp_div_less)
  have s48: "(n div 2 ^ 56) * 256 + (n div 2 ^ 48) mod 256 = n div 2 ^ 48"
    using byte_step[of n 48] by simp
  have s40: "(n div 2 ^ 48) * 256 + (n div 2 ^ 40) mod 256 = n div 2 ^ 40"
    using byte_step[of n 40] by simp
  have s32: "(n div 2 ^ 40) * 256 + (n div 2 ^ 32) mod 256 = n div 2 ^ 32"
    using byte_step[of n 32] by simp
  have s24: "(n div 2 ^ 32) * 256 + (n div 2 ^ 24) mod 256 = n div 2 ^ 24"
    using byte_step[of n 24] by simp
  have s16: "(n div 2 ^ 24) * 256 + (n div 2 ^ 16) mod 256 = n div 2 ^ 16"
    using byte_step[of n 16] by simp
  have s8: "(n div 2 ^ 16) * 256 + (n div 2 ^ 8) mod 256 = n div 2 ^ 8"
    using byte_step[of n 8] by simp
  have s0: "(n div 2 ^ 8) * 256 + (n div 2 ^ 0) mod 256 = n"
    using byte_step[of n 0] by simp
  show ?thesis
    unfolding big_endian_value_def
    by (simp only: foldl.simps unat_byte_of_uint64 b0 n_def[symmetric]
        top s48 s40 s32 s24 s16 s8 s0 mult_zero_left add_0)
qed

text \<open>
  Claim C7. The Raft store's driver is the node's storage driver under the one-byte
  prefix \<open>0x00\<close>. For every partition number \<open>p\<close>, \<^verbatim>\<open>sitePoolStorePrefix\<close> returns (without
  panic) nine bytes: \<open>0x01\<close>, then the eight bytes \<^verbatim>\<open>byte(p >> 56)\<close> ... \<^verbatim>\<open>byte(p)\<close>, which
  read as a big-endian integer are \<open>p\<close>; the site pool's driver carries that prefix.
\<close>

theorem C7_storage_prefix_layout:
  "prefix (New_raftStoreDriver config) = [0]
   \<and> wrapped (New_raftStoreDriver config) = StorageDriver config
   \<and> sitePoolStorePrefix p =
       Some (1 # [ucast (drop_bit 56 p), ucast (drop_bit 48 p), ucast (drop_bit 40 p),
                  ucast (drop_bit 32 p), ucast (drop_bit 24 p), ucast (drop_bit 16 p),
                  ucast (drop_bit 8 p), ucast p])
   \<and> length (the (sitePoolStorePrefix p)) = 9
   \<and> hd (the (sitePoolStorePrefix p)) = 1
   \<and> big_endian_value (tl (the (sitePoolStorePrefix p))) = unat p
   \<and> map_option prefix (sitePool_storageDriver driver p) = sitePoolStorePrefix p"
proof -
  have r: "prefix (New_raftStoreDriver config) = [0]"
       "wrapped (New_raftStoreDriver config) = StorageDriver config"
    by (simp_all add: New_raftStoreDriver_def NewPrefixedStorageDriver_def
        RaftStoreStoragePrefix_def)
  have d: "map_option prefix (sitePool_storageDriver driver p) = sitePoolStorePrefix p"
    by (simp add: sitePool_storageDriver_def NewPrefixedStorageDriver_def
        option.map_comp comp_def option.map_ident)
  have v: "big_endian_value (tl (the (sitePoolStorePrefix p))) = unat p"
    by (simp add: sitePoolStorePrefix_bytes big_endian_value_uint64)
  show ?thesis
    using r d v by (simp add: sitePoolStorePrefix_bytes)
qed

section \<open>Properties of the iterator\<close>

lemma Iterator_advance_MerkleKeys [simp]:
  "MerkleKeys (Iterator_advance k iter) = MerkleKeys iter"
  by (induction k) (auto simp: Iterator_Next_def)

lemma Iterator_advance_index:
  "CurrentIndex (Iterator_advance k (newCloudResponderMerkleNodeIterator mk)) =
     (if k \<le> length (Keys mk) then int k - 1 else int (length (Keys mk)))"
proof (induction k)
  case 0
  show ?case by (simp add: newCloudResponderMerkleNodeIterator_def)
next
  case (Suc k)
  then show ?case
    by (auto simp: Iterator_Next_def newCloudResponderMerkleNodeIterator_def)
qed

text \<open>
  From any position at or after the start, the client loop sees the entries that lie
  after the current index, in list order.
\<close>

lemma Iterator_drain_from:
  "- 1 \<le> CurrentIndex iter \<Longrightarrow>
   Iterator_drain iter =
     map (\<lambda>e. (Some (bytes_of_string (Key e)), Value e))
       (drop (nat (CurrentIndex iter + 1)) (Keys (MerkleKeys iter)))"
proof (induction iter rule: Iterator_drain.induct)
  case (1 iter)
  show ?case
  proof (cases "CurrentIndex iter \<ge> int (length (Keys (MerkleKeys iter))) - 1")
    case True
    then show ?thesis
      by (subst Iterator_drain.simps) (simp add: Iterator_Next_def)
  next
    case False
    let ?iter' = "iter\<lparr>CurrentIndex := CurrentIndex iter + 1\<rparr>"
    have nx: "Iterator_Next iter = (True, ?iter')"
      using False by (simp add: Iterator_Next_def)
    have ih: "Iterator_drain ?iter' =
        map (\<lambda>e. (Some (bytes_of_string (Key e)), Value e))
          (drop (nat (CurrentIndex iter + 2)) (Keys (MerkleKeys iter)))"
      using "1.IH"[OF nx[symmetric] refl] "1.prems" by (simp add: add.commute)
    have lt: "nat (CurrentIndex iter + 1) < length (Keys (MerkleKeys iter))"
      using False "1.prems" by linarith
    have dr: "drop (nat (CurrentIndex iter + 1)) (Keys (MerkleKeys iter)) =
        Keys (MerkleKeys iter) ! nat (CurrentIndex iter + 1)
          # drop (nat (CurrentIndex iter + 2)) (Keys (MerkleKeys iter))"
    proof -
      have "Suc (nat (CurrentIndex iter + 1)) = nat (CurrentIndex iter + 2)"
        using "1.prems" by linarith
      then show ?thesis using Cons_nth_drop_Suc[OF lt] by metis
    qed
    have kv:
      "Iterator_Key ?iter' =
         Some (bytes_of_string (Key (Keys (MerkleKeys iter) ! nat (CurrentIndex iter + 1))))"
      "Iterator_Value ?iter' = Value (Keys (MerkleKeys iter) ! nat (CurrentIndex iter + 1))"
      using False "1.prems" by (auto simp: Iterator_Key_def Iterator_Value_def)
    show ?thesis
      by (subst Iterator_drain.simps) (simp add: nx ih dr kv)
  qed
qed

text \<open>
  Claim C10. Started at \<^verbatim>\<open>CurrentIndex = -1\<close>, the iterator yields exactly the entries
  of \<^verbatim>\<open>MerkleKeys.Keys\<close> in list order. After \<open>k\<close> calls of \<^verbatim>\<open>Next\<close>, the next call
  returns true exactly when \<open>k < len(Keys)\<close>, so it returns true \<open>len(Keys)\<close> times and
  false from then on; the index is \<open>k - 1\<close> up to \<open>k = len(Keys)\<close> and stays at
  \<open>len(Keys)\<close> afterwards; \<^verbatim>\<open>Key\<close> and \<^verbatim>\<open>Value\<close> give the entry at position \<open>k - 1\<close>
  for \<open>1 \<le> k \<le> len(Keys)\<close> and nil before the first \<^verbatim>\<open>Next\<close>, after exhaustion and
  for an empty list; \<^verbatim>\<open>Error\<close> is always nil.
\<close>

theorem C10_iterator_yields_keys_in_order:
  "Iterator_drain (newCloudResponderMerkleNodeIterator mk) =
       map (\<lambda>e. (Some (bytes_of_string (Key e)), Value e)) (Keys mk)
   \<and> fst (Iterator_Next (Iterator_advance k (newCloudResponderMerkleNodeIterator mk))) =
       (k < length (Keys mk))
   \<and> CurrentIndex (Iterator_advance k (newCloudResponderMerkleNodeIterator mk)) =
       (if k \<le> length (Keys mk) then int k - 1 else int (length (Keys mk)))
   \<and> Iterator_Key (Iterator_advance k (newCloudResponderMerkleNodeIterator mk)) =
       (if 1 \<le> k \<and> k \<le> length (Keys mk)
        then Some (bytes_of_string (Key (Keys mk ! (k - 1)))) else None)
   \<and> Iterator_Value (Iterator_advance k (newCloudResponderMerkleNodeIterator mk)) =
       (if 1 \<le> k \<and> k \<le> length (Keys mk) then Value (Keys mk ! (k - 1)) else None)
   \<and> Iterator_Error (Iterator_advance k (newCloudResponderMerkleNodeIterator mk)) = None"
proof -
  let ?it = "newCloudResponderMerkleNodeIterator mk"
  have mk: "MerkleKeys ?it = mk"
    by (simp add: newCloudResponderMerkleNodeIterator_def)
  have ix: "CurrentIndex (Iterator_advance k ?it) =
           (if k \<le> length (Keys mk) then int k - 1 else int (length (Keys mk)))"
    by (rule Iterator_advance_index)
  have c1: "Iterator_drain ?it = map (\<lambda>e. (Some (bytes_of_string (Key e)), Value e)) (Keys mk)"
    using Iterator_drain_from[of ?it] by (simp add: newCloudResponderMerkleNodeIterator_def)
  have c2: "fst (Iterator_Next (Iterator_advance k ?it)) = (k < length (Keys mk))"
    by (auto simp: Iterator_Next_def mk ix)
  have c4: "Iterator_Key (Iterator_advance k ?it) =
           (if 1 \<le> k \<and> k \<le> length (Keys mk)
            then Some (bytes_of_string (Key (Keys mk ! (k - 1)))) else None)"
    by (auto simp: Iterator_Key_def mk ix nat_diff_distrib')
  have c5: "Iterator_Value (Iterator_advance k ?it) =
           (if 1 \<le> k \<and> k \<le> length (Keys mk) then Value (Keys mk ! (k - 1)) else None)"
    by (auto simp: Iterator_Value_def mk ix nat_diff_distrib')
  have c6: "Iterator_Error (Iterator_advance k ?it) = None"
    by (simp add: Iterator_Error_def)
  from c1 c2 ix c4 c5 c6 show ?thesis by blast
qed

section \<open>Properties of the bucket proxies\<close>

text \<open>
  Claim C4. For every patch and every key list, \<^verbatim>\<open>Merge\<close> and \<^verbatim>\<open>Forget\<close> of
  \<^verbatim>\<open>CloudLocalBucketProxy\<close> and of \<^verbatim>\<open>CloudRemoteBucketProxy\<close> return nil and leave the
  world as it was: every bucket's state and the list of requests sent to peers. Whereas
  \<^verbatim>\<open>RelayBucketProxy.Merge\<close> returns what the underlying bucket's \<^verbatim>\<open>Merge\<close> returns on
  that patch and leaves the bucket in the state that \<^verbatim>\<open>Merge\<close> produced.
\<close>

theorem C4_cloud_proxies_merge_forget_noop:
  "CloudLocalBucketProxy_Merge B localProxy mergedKeys w = (None, w)
   \<and> CloudLocalBucketProxy_Forget B localProxy keys w = (None, w)
   \<and> CloudRemoteBucketProxy_Merge remoteProxy mergedKeys w = (None, w)
   \<and> CloudRemoteBucketProxy_Forget remoteProxy keys w = (None, w)
   \<and> fst (RelayBucketProxy_Merge B relayProxy mergedKeys w) =
       fst (Bucket_Merge B mergedKeys (buckets w (relay_Bucket relayProxy)))
   \<and> buckets (snd (RelayBucketProxy_Merge B relayProxy mergedKeys w)) (relay_Bucket relayProxy) =
       snd (Bucket_Merge B mergedKeys (buckets w (relay_Bucket relayProxy)))"
  by (simp add: CloudLocalBucketProxy_Merge_def CloudLocalBucketProxy_Forget_def
      CloudRemoteBucketProxy_Merge_def CloudRemoteBucketProxy_Forget_def
      RelayBucketProxy_Merge_def split: prod.split)

section \<open>Properties of the API client\<close>

text \<open>
  Claim C8. For every site ID and argument list, \<^verbatim>\<open>APIClient.Batch\<close> returns nil,
  \<^verbatim>\<open>APIClient.Get\<close> returns \<^verbatim>\<open>(nil, nil)\<close> and \<^verbatim>\<open>APIClient.GetMatches\<close> returns
  \<^verbatim>\<open>(EntryIterator{}, nil)\<close>; none of them performs an HTTP request or moves the
  client's server index (the client and the list of performed requests come back as they
  were), and none returns an error. A method that does go through \<^verbatim>\<open>sendRequest\<close>, such
  as \<^verbatim>\<open>AddSite\<close> on a client with one server, adds its request to that list.
\<close>

theorem C8_api_client_data_methods_are_stubs:
  "APIClient_Batch siteID batch (client, performed) = (None, client, performed)
   \<and> APIClient_Get siteID keys (client, performed) = ((None, None), client, performed)
   \<and> APIClient_GetMatches siteID keys (client, performed) =
       ((EntryIterator_zero, None), client, performed)
   \<and> APIClient_AddSite (\<lambda>r. Replied 200 (Inr [])) siteID
        (APIClient_New [server], performed) =
       Some (None, APIClient_New [server],
             performed @ [\<lparr>httpVerb = ''PUT'',
                            url = ''http://'' @ server @ ''/sites/'' @ siteID,
                            requestBody = None\<rparr>])"
  by (simp add: APIClient_Batch_def APIClient_Get_def APIClient_GetMatches_def
      APIClient_AddSite_def sendRequest_def nextServer_def APIClient_New_def)

section \<open>Properties of ClusterNode.Batch and ClusterNode.Merge\<close>

text \<open>
  Claim C9. Where the partition, site and bucket exist locally and the local node does
  not hold the partition: \<^verbatim>\<open>Batch\<close> returns \<^verbatim>\<open>ENoQuorum\<close> and leaves the world (every
  bucket) unchanged, since it checks \<^verbatim>\<open>LocalNodeHoldsPartition\<close> before applying;
  \<^verbatim>\<open>Merge\<close>, whose check comes after \<^verbatim>\<open>bucket.Merge\<close>, returns \<^verbatim>\<open>ENoQuorum\<close> when
  \<^verbatim>\<open>bucket.Merge\<close> succeeded, with the bucket in the state the patch put it in; and
  whenever \<^verbatim>\<open>Merge\<close> returns \<^verbatim>\<open>ENoQuorum\<close> the bucket is in the state \<^verbatim>\<open>bucket.Merge\<close>
  produced.
\<close>

theorem C9_batch_checks_before_merge_after:
  assumes "local_bucket pools partitionNumber siteID bucketName = Some bucket"
      and "\<not> LocalNodeHoldsPartition cc partitionNumber"
  shows "ClusterNode_Batch B pools cc partitionNumber siteID bucketName updateBatch w =
           ((None, Some ENoQuorum), w)
       \<and> (fst (Bucket_Merge B patch (buckets w bucket)) = None \<longrightarrow>
            ClusterNode_Merge B pools cc partitionNumber siteID bucketName patch w =
              (Some ENoQuorum,
               w\<lparr>buckets := (buckets w)(bucket := snd (Bucket_Merge B patch (buckets w bucket)))\<rparr>))
       \<and> (fst (ClusterNode_Merge B pools cc partitionNumber siteID bucketName patch w) = Some ENoQuorum \<longrightarrow>
            buckets (snd (ClusterNode_Merge B pools cc partitionNumber siteID bucketName patch w)) bucket =
              snd (Bucket_Merge B patch (buckets w bucket)))"
  using assms
  by (auto simp: ClusterNode_Batch_def ClusterNode_Merge_def local_bucket_def
      split: option.splits prod.splits)

text \<open>
  At a concrete node whose bucket is empty: \<^verbatim>\<open>Batch\<close> leaves it empty, \<^verbatim>\<open>Merge\<close> of the
  patch \<open>[5]\<close> returns \<^verbatim>\<open>ENoQuorum\<close> and the bucket holds \<open>[5]\<close>.
\<close>

theorem C9_batch_checks_before_merge_after_witness:
  "local_bucket example_pools 7 ''site1'' ''default'' = Some 0
   \<and> \<not> LocalNodeHoldsPartition (example_controller 1 [2] False) 7
   \<and> ClusterNode_Batch example_Bucket example_pools (example_controller 1 [2] False)
        7 ''site1'' ''default'' 5 example_world = ((None, Some ENoQuorum), example_world)
   \<and> fst (ClusterNode_Merge example_Bucket example_pools (example_controller 1 [2] False)
        7 ''site1'' ''default'' [5] example_world) = Some ENoQuorum
   \<and> buckets (snd (ClusterNode_Merge example_Bucket example_pools (example_controller 1 [2] False)
        7 ''site1'' ''default'' [5] example_world)) 0 = [5]
   \<and> buckets example_world 0 = []"
proof -
  have h1: "local_bucket example_pools 7 ''site1'' ''default'' = Some 0"
    by (simp add: local_bucket_def example_pools_def)
  have h2: "\<not> LocalNodeHoldsPartition (example_controller 1 [2] False) 7"
    by (simp add: example_controller_def)
  have m: "Bucket_Merge example_Bucket [5] (buckets example_world 0) = (None, [5])"
    by (simp add: example_Bucket_def example_world_def)
  show ?thesis
    using C9_batch_checks_before_merge_after[OF h1 h2, of example_Bucket 5 example_world "[5]"]
      h1 h2 m
    by (simp add: example_world_def)
qed

section \<open>Properties of CloudBucketProxyFactory.CreateBucketProxy\<close>

lemma card_mod_eq:
  "i < m \<Longrightarrow> card {n. n < N \<and> n mod m = i} = N div m + (if i < N mod m then 1 else 0)"
proof (induction N)
  case 0
  then show ?case by simp
next
  case (Suc N)
  have fin: "finite {n. n < N \<and> n mod m = i}" by simp
  have split: "{n. n < Suc N \<and> n mod m = i} =
      (if N mod m = i then insert N {n. n < N \<and> n mod m = i} else {n. n < N \<and> n mod m = i})"
    by (auto simp: less_Suc_eq)
  have "card {n. n < Suc N \<and> n mod m = i} =
      card {n. n < N \<and> n mod m = i} + (if N mod m = i then 1 else 0)"
    unfolding split using fin by simp
  also have "\<dots> = N div m + (if i < N mod m then 1 else 0) + (if N mod m = i then 1 else 0)"
    using Suc by simp
  also have "\<dots> = Suc N div m + (if i < Suc N mod m then 1 else 0)"
    using Suc.prems by (auto simp: mod_Suc div_Suc)
  finally show ?case .
qed

lemma card_word_pred:
  "card {r::uint32. P (unat r)} = card {n. n < 2 ^ 32 \<and> P n}"
proof -
  have "unat ` {r::uint32. P (unat r)} = {n. n < 2 ^ 32 \<and> P n}"
  proof (rule set_eqI, rule iffI)
    fix n assume "n \<in> unat ` {r::uint32. P (unat r)}"
    then obtain r :: uint32 where "n = unat r" "P (unat r)" by auto
    then show "n \<in> {n. n < 2 ^ 32 \<and> P n}"
      using unsigned_less[of r, where 'a=nat] by simp
  next
    fix n assume "n \<in> {n. n < 2 ^ 32 \<and> P n}"
    then have n: "n < 2 ^ 32" "P n" by auto
    then have "unat (of_nat n :: uint32) = n"
      by (simp add: unat_of_nat take_bit_nat_eq_self)
    with n show "n \<in> unat ` {r::uint32. P (unat r)}"
      by (metis (mono_tags, lifting) image_eqI mem_Collect_eq)
  qed
  moreover have "inj_on unat {r::uint32. P (unat r)}"
    by (auto simp: inj_on_def word_unat_eq_iff)
  ultimately show ?thesis
    by (metis card_image)
qed

lemma chosen_index_eq:
  "n < 2 ^ 32 \<Longrightarrow> chosen_index n r = unat r mod n"
  by (simp add: chosen_index_def unat_mod_distrib unat_of_nat take_bit_nat_eq_self)

lemma chosen_count:
  assumes "i < n" "n < 2 ^ 32"
  shows "card {r. chosen_index n r = i} = 2 ^ 32 div n + (if i < 2 ^ 32 mod n then 1 else 0)"
proof -
  have "{r. chosen_index n r = i} = {r::uint32. unat r mod n = i}"
    using assms by (simp add: chosen_index_eq)
  then show ?thesis
    using card_word_pred[of "\<lambda>k. k mod n = i"] card_mod_eq[OF assms(1), of "2 ^ 32"]
    by simp
qed

lemma chosen_index_less: "0 < n \<Longrightarrow> n < 2 ^ 32 \<Longrightarrow> chosen_index n r < n"
  by (simp add: chosen_index_eq)

text \<open>
  Claim C5, as amended. For an owner list of fewer than \<open>2^32\<close> nodes:
  an empty list gives the error "No node owns this partition"; otherwise the factory
  takes the owner at position \<open>r mod n\<close>, for \<open>r\<close> the value of \<^verbatim>\<open>rand.Uint32()\<close> and \<open>n\<close>
  the number of owners, which is one of the owners; when that owner is the local node
  it returns a \<^verbatim>\<open>CloudLocalBucketProxy\<close> over the local bucket, or \<^verbatim>\<open>ENoLocalBucket\<close> when
  the partition, site or bucket is absent locally, and otherwise a
  \<^verbatim>\<open>CloudRemoteBucketProxy\<close> addressed to that owner. Each position is selected by
  \<open>2^32 div n\<close> of the \<open>2^32\<close> values of \<open>r\<close>, and by one more when it lies below
  \<open>2^32 mod n\<close>: the choice is uniform only up to that remainder.
\<close>

theorem C5_create_bucket_proxy:
  assumes "length (PartitionOwners cc (Partition cc (RelaySite cc peerID))) < 2 ^ 32"
  shows "(PartitionOwners cc (Partition cc (RelaySite cc peerID)) = [] \<longrightarrow>
            CloudBucketProxyFactory_CreateBucketProxy cc pools r peerID bucketName =
              Some (Inl (ErrorString ''No node owns this partition'')))
       \<and> (PartitionOwners cc (Partition cc (RelaySite cc peerID)) \<noteq> [] \<longrightarrow>
            (let siteID = RelaySite cc peerID;
                 owners = PartitionOwners cc (Partition cc siteID);
                 nodeID = owners ! (unat r mod length owners)
             in nodeID \<in> set owners
              \<and> CloudBucketProxyFactory_CreateBucketProxy cc pools r peerID bucketName =
                  Some (if LocalNodeID cc = nodeID
                        then (case local_bucket pools (Partition cc siteID) siteID bucketName of
                                None \<Rightarrow> Inl ENoLocalBucket
                              | Some bucket \<Rightarrow>
                                  Inr (Local \<lparr>local_Bucket = bucket, local_SiteID = siteID\<rparr>))
                        else Inr (Remote \<lparr>remote_PeerAddress = ClusterMemberAddress cc nodeID,
                                           remote_SiteID = siteID,
                                           remote_BucketName = bucketName\<rparr>))))
       \<and> (\<forall>i < length (PartitionOwners cc (Partition cc (RelaySite cc peerID))).
            card {r. chosen_index (length (PartitionOwners cc (Partition cc (RelaySite cc peerID)))) r = i} =
              2 ^ 32 div length (PartitionOwners cc (Partition cc (RelaySite cc peerID)))
              + (if i < 2 ^ 32 mod length (PartitionOwners cc (Partition cc (RelaySite cc peerID)))
                 then 1 else 0))"
proof -
  define owners where "owners = PartitionOwners cc (Partition cc (RelaySite cc peerID))"
  have len: "length owners < 2 ^ 32" using assms by (simp add: owners_def)
  have empty: "owners = [] \<longrightarrow>
      CloudBucketProxyFactory_CreateBucketProxy cc pools r peerID bucketName =
        Some (Inl (ErrorString ''No node owns this partition''))"
    by (simp add: CloudBucketProxyFactory_CreateBucketProxy_def owners_def)
  have counts: "\<forall>i < length owners. card {r. chosen_index (length owners) r = i} =
      2 ^ 32 div length owners + (if i < 2 ^ 32 mod length owners then 1 else 0)"
    using chosen_count len by blast
  have pick: "owners \<noteq> [] \<longrightarrow>
            (let siteID = RelaySite cc peerID;
                 nodeID = owners ! (unat r mod length owners)
             in nodeID \<in> set owners
              \<and> CloudBucketProxyFactory_CreateBucketProxy cc pools r peerID bucketName =
                  Some (if LocalNodeID cc = nodeID
                        then (case local_bucket pools (Partition cc siteID) siteID bucketName of
                                None \<Rightarrow> Inl ENoLocalBucket
                              | Some bucket \<Rightarrow>
                                  Inr (Local \<lparr>local_Bucket = bucket, local_SiteID = siteID\<rparr>))
                        else Inr (Remote \<lparr>remote_PeerAddress = ClusterMemberAddress cc nodeID,
                                           remote_SiteID = siteID,
                                           remote_BucketName = bucketName\<rparr>)))"
  proof
    assume ne: "owners \<noteq> []"
    then have pos: "0 < length owners" by simp
    have nz: "(of_nat (length owners) :: uint32) \<noteq> 0"
      using of_nat_neq_0[of "length owners", where 'a=32] pos len by simp
    have ix: "chosen_index (length owners) r = unat r mod length owners"
      using len by (rule chosen_index_eq)
    have mem: "owners ! (unat r mod length owners) \<in> set owners"
      using pos by simp
    show "(let siteID = RelaySite cc peerID;
                 nodeID = owners ! (unat r mod length owners)
             in nodeID \<in> set owners
              \<and> CloudBucketProxyFactory_CreateBucketProxy cc pools r peerID bucketName =
                  Some (if LocalNodeID cc = nodeID
                        then (case local_bucket pools (Partition cc siteID) siteID bucketName of
                                None \<Rightarrow> Inl ENoLocalBucket
                              | Some bucket \<Rightarrow>
                                  Inr (Local \<lparr>local_Bucket = bucket, local_SiteID = siteID\<rparr>))
                        else Inr (Remote \<lparr>remote_PeerAddress = ClusterMemberAddress cc nodeID,
                                           remote_SiteID = siteID,
                                           remote_BucketName = bucketName\<rparr>)))"
      using ne nz mem
      by (simp add: CloudBucketProxyFactory_CreateBucketProxy_def owners_def[symmetric] ix
          local_bucket_def Let_def split: option.splits)
  qed
  show ?thesis
    using empty pick counts unfolding owners_def Let_def by blast
qed

lemma example_create_remote:
  "CloudBucketProxyFactory_CreateBucketProxy (example_controller 9 [1, 2, 3] True) example_pools
      r ''relay'' ''default'' =
   Some (Inr (example_remote ([1, 2, 3] ! chosen_index 3 r)))"
proof -
  have "chosen_index 3 r < 3" by (rule chosen_index_less) simp_all
  then have "chosen_index 3 r = 0 \<or> chosen_index 3 r = 1 \<or> chosen_index 3 r = 2" by linarith
  then show ?thesis
    by (auto simp: CloudBucketProxyFactory_CreateBucketProxy_def example_controller_def
        example_remote_def numeral_3_eq_3[symmetric])
qed

lemma example_selected_by:
  "selected_by (example_controller 9 [1, 2, 3] True) example_pools ''relay'' ''default''
      (example_remote k) = {r. [1, 2, 3] ! chosen_index 3 r = k}"
  unfolding selected_by_def example_create_remote
  by (simp add: example_remote_def)

lemma example_owner_index:
  "([1, 2, 3 :: uint64] ! chosen_index 3 r = 1) = (chosen_index 3 r = 0)"
  "([1, 2, 3 :: uint64] ! chosen_index 3 r = 2) = (chosen_index 3 r = 1)"
proof -
  have "chosen_index 3 r < 3" by (rule chosen_index_less) simp_all
  then have c: "chosen_index 3 r = 0 \<or> chosen_index 3 r = 1 \<or> chosen_index 3 r = 2" by linarith
  from c show "([1, 2, 3 :: uint64] ! chosen_index 3 r = 1) = (chosen_index 3 r = 0)" by auto
  from c show "([1, 2, 3 :: uint64] ! chosen_index 3 r = 2) = (chosen_index 3 r = 1)" by auto
qed

text \<open>
  Claim C5 as stated fails: with the three owners 1, 2, 3 (none of them the local node),
  owner 1 is selected by 1431655766 of the \<open>2^32\<close> values of \<^verbatim>\<open>rand.Uint32()\<close> and owner 2
  by 1431655765, so the owners do not have equal probability.
\<close>

theorem C5_uniform_counterexample:
  "card (selected_by (example_controller 9 [1, 2, 3] True) example_pools ''relay'' ''default''
          (example_remote 1)) = 1431655766
   \<and> card (selected_by (example_controller 9 [1, 2, 3] True) example_pools ''relay'' ''default''
          (example_remote 2)) = 1431655765"
  unfolding example_selected_by example_owner_index
  using chosen_count[of 0 3] chosen_count[of 1 3] by simp

text \<open>
  The amended statement at a concrete controller: owners 1, 2, 3 and local node 1. The
  value 3 selects position 0, the local node, and gives a local proxy; the value 4
  selects position 1 and gives a remote proxy to node 2.
\<close>

theorem C5_create_bucket_proxy_witness:
  "length (PartitionOwners (example_controller 1 [1, 2, 3] True)
      (Partition (example_controller 1 [1, 2, 3] True)
        (RelaySite (example_controller 1 [1, 2, 3] True) ''relay''))) < 2 ^ 32
   \<and> CloudBucketProxyFactory_CreateBucketProxy (example_controller 1 [1, 2, 3] True) example_pools
        3 ''relay'' ''default'' =
       Some (Inr (Local \<lparr>local_Bucket = 0, local_SiteID = ''site1''\<rparr>))
   \<and> CloudBucketProxyFactory_CreateBucketProxy (example_controller 1 [1, 2, 3] True) example_pools
        4 ''relay'' ''default'' = Some (Inr (example_remote 2))
   \<and> card {r. chosen_index 3 r = 2} = 1431655765"
proof -
  have h: "length (PartitionOwners (example_controller 1 [1, 2, 3] True)
      (Partition (example_controller 1 [1, 2, 3] True)
        (RelaySite (example_controller 1 [1, 2, 3] True) ''relay''))) < 2 ^ 32"
    by (simp add: example_controller_def)
  have lb: "local_bucket example_pools 7 ''site1'' ''default'' = Some 0"
    by (simp add: local_bucket_def example_pools_def)
  have sel: "PartitionOwners (example_controller 1 [1, 2, 3] True) p = [1, 2, 3]"
       "Partition (example_controller 1 [1, 2, 3] True) s = 7"
       "RelaySite (example_controller 1 [1, 2, 3] True) q = ''site1''"
       "LocalNodeID (example_controller 1 [1, 2, 3] True) = 1"
       "ClusterMemberAddress (example_controller 1 [1, 2, 3] True) n =
          \<lparr>NodeID = n, Host = ''10.0.0.1'', Port = 8080\<rparr>" for p s q n
    by (simp_all add: example_controller_def)
  have len3: "length [1, 2, 3 :: uint64] = 3" by simp
  show ?thesis
    using C5_create_bucket_proxy[OF h, of example_pools 3 "''default''"]
          C5_create_bucket_proxy[OF h, of example_pools 4 "''default''"]
    unfolding sel len3
    by (simp add: lb Let_def example_remote_def)
qed

section \<open>Properties of LeaveCluster and decommission\<close>

lemma lock_held_partitions_no_RemoveNode: "RemoveNode n \<notin> set (lock_held_partitions env rs)"
  by (induction rs) (auto split: option.splits)

lemma decommission_succeeds:
  assumes "LocalNodeConfig env = Some cfg"
      and "NodeConfig_Capacity cfg = 0 \<or> ClusterCommand_result env = None"
      and "LocalNodeHeldPartitionReplicas env = [] \<or> drain_select env = Some Empty"
      and "RemoveNode_result env = None"
  shows "decommission env n = Returns (EDecommissioned, decommission_sequence env n cfg)"
  using assms
  by (auto simp: decommission_def give_up_tokens_def leave_cluster_def decommission_sequence_def
      Let_def)

lemma decommission_interrupted:
  assumes "LocalNodeConfig env = Some cfg"
      and "NodeConfig_Capacity cfg = 0 \<or> ClusterCommand_result env = None"
      and "LocalNodeHeldPartitionReplicas env \<noteq> []"
  shows "drain_select env = Some CtxDone \<Longrightarrow>
           \<exists>tr. decommission env n = Returns (ECancelled, tr) \<and> RemoveNode n \<notin> set tr"
    and "drain_select env = Some LeftCluster \<Longrightarrow>
           \<exists>tr. decommission env n = Returns (ERemoved, tr) \<and> RemoveNode n \<notin> set tr"
    and "drain_select env = None \<Longrightarrow> decommission env n = Blocks"
  using assms
  by (auto simp: decommission_def give_up_tokens_def Let_def lock_held_partitions_no_RemoveNode)

lemma decommission_only_after:
  assumes "decommission env n = Returns (EDecommissioned, tr)"
      and "ClusterCommand_result env \<noteq> Some EDecommissioned"
      and "RemoveNode_result env \<noteq> Some EDecommissioned"
  shows "\<exists>cfg. LocalNodeConfig env = Some cfg
           \<and> tr = decommission_sequence env n cfg
           \<and> (NodeConfig_Capacity cfg = 0 \<or> ClusterCommand_result env = None)
           \<and> (LocalNodeHeldPartitionReplicas env = [] \<or> drain_select env = Some Empty)
           \<and> RemoveNode_result env = None"
  using assms
  by (auto simp: decommission_def give_up_tokens_def leave_cluster_def decommission_sequence_def
      Let_def split: option.splits if_splits drain_signal.splits)

lemma LeaveCluster_starts:
  assumes "shutdownDecommissioner (node st) = None"
  shows "fst (LeaveCluster None st) = (None, Some (allocated st + 2))"
    and "leftClusterResult (node (snd (LeaveCluster None st))) = Some (allocated st + 2)"
    and "shutdownDecommissioner (node (snd (LeaveCluster None st))) = Some (allocated st + 1)"
    and "channel (snd (LeaveCluster None st)) (allocated st + 2) = []"
    and "actions (snd (LeaveCluster None st)) = actions st"
    and "decommission_tasks (snd (LeaveCluster None st)) = decommission_tasks st @ [allocated st + 1]"
    and "SetDecommissioningFlag_calls (snd (LeaveCluster None st)) = SetDecommissioningFlag_calls st + 1"
    and "decommissioningFlag (snd (LeaveCluster None st))"
  using assms by (simp_all add: LeaveCluster_def waitForEmpty_def Let_def)

lemma LeaveCluster_active:
  assumes "shutdownDecommissioner (node st) \<noteq> None"
  shows "LeaveCluster f st = ((None, leftClusterResult (node st)), waitForEmpty st)"
  using assms by (simp add: LeaveCluster_def waitForEmpty_def Let_def)

lemma decommission_task_sends:
  assumes "leftClusterResult (node st) = Some c"
  shows "decommission env n = Returns (e, tr) \<Longrightarrow>
           channel (decommission_task env n st) c = channel st c @ [e]
           \<and> actions (decommission_task env n st) = actions st @ tr"
    and "decommission env n = Blocks \<Longrightarrow> decommission_task env n st = st"
  using assms by (simp_all add: decommission_task_def)

text \<open>
  Claim C6. When a decommissioner is already active (\<^verbatim>\<open>shutdownDecommissioner\<close> is not
  nil), \<^verbatim>\<open>LeaveCluster\<close> returns a nil error and the node's \<^verbatim>\<open>leftClusterResult\<close> channel,
  whatever \<^verbatim>\<open>SetDecommissioningFlag\<close> would answer: the flag is not set again (no call is
  made), no decommission task is started, and the result channel, the canceller and the
  channels' contents stay as they are. So after a first call that started the
  decommissioner, a second call returns the identical channel, and there has been one
  \<^verbatim>\<open>SetDecommissioningFlag\<close> call and one task in all.
\<close>

theorem C6_leave_cluster_idempotent:
  "(shutdownDecommissioner (node st) \<noteq> None \<longrightarrow>
      fst (LeaveCluster f st) = (None, leftClusterResult (node st))
    \<and> SetDecommissioningFlag_calls (snd (LeaveCluster f st)) = SetDecommissioningFlag_calls st
    \<and> decommissioningFlag (snd (LeaveCluster f st)) = decommissioningFlag st
    \<and> decommission_tasks (snd (LeaveCluster f st)) = decommission_tasks st
    \<and> leftClusterResult (node (snd (LeaveCluster f st))) = leftClusterResult (node st)
    \<and> shutdownDecommissioner (node (snd (LeaveCluster f st))) = shutdownDecommissioner (node st)
    \<and> channel (snd (LeaveCluster f st)) = channel st)
   \<and> (shutdownDecommissioner (node st) = None \<longrightarrow>
      fst (LeaveCluster None st) = (None, Some (allocated st + 2))
    \<and> fst (LeaveCluster f (snd (LeaveCluster None st))) = fst (LeaveCluster None st)
    \<and> SetDecommissioningFlag_calls (snd (LeaveCluster f (snd (LeaveCluster None st)))) =
        SetDecommissioningFlag_calls st + 1
    \<and> decommission_tasks (snd (LeaveCluster f (snd (LeaveCluster None st)))) =
        decommission_tasks st @ [allocated st + 1])"
proof (intro conjI impI)
  assume a: "shutdownDecommissioner (node st) \<noteq> None"
  note r = LeaveCluster_active[OF a, of f]
  show "fst (LeaveCluster f st) = (None, leftClusterResult (node st))" by (simp add: r)
  show "SetDecommissioningFlag_calls (snd (LeaveCluster f st)) = SetDecommissioningFlag_calls st"
    by (simp add: r waitForEmpty_def)
  show "decommissioningFlag (snd (LeaveCluster f st)) = decommissioningFlag st"
    by (simp add: r waitForEmpty_def)
  show "decommission_tasks (snd (LeaveCluster f st)) = decommission_tasks st"
    by (simp add: r waitForEmpty_def)
  show "leftClusterResult (node (snd (LeaveCluster f st))) = leftClusterResult (node st)"
    by (simp add: r waitForEmpty_def)
  show "shutdownDecommissioner (node (snd (LeaveCluster f st))) = shutdownDecommissioner (node st)"
    by (simp add: r waitForEmpty_def)
  show "channel (snd (LeaveCluster f st)) = channel st"
    by (simp add: r waitForEmpty_def)
next
  assume a: "shutdownDecommissioner (node st) = None"
  note s = LeaveCluster_starts[OF a]
  have act: "shutdownDecommissioner (node (snd (LeaveCluster None st))) \<noteq> None"
    by (simp add: s)
  note r = LeaveCluster_active[OF act, of f]
  show "fst (LeaveCluster None st) = (None, Some (allocated st + 2))" by (rule s)
  show "fst (LeaveCluster f (snd (LeaveCluster None st))) = fst (LeaveCluster None st)"
    by (simp add: r s)
  show "SetDecommissioningFlag_calls (snd (LeaveCluster f (snd (LeaveCluster None st)))) =
        SetDecommissioningFlag_calls st + 1"
    by (simp add: r s waitForEmpty_def)
  show "decommission_tasks (snd (LeaveCluster f (snd (LeaveCluster None st)))) =
        decommission_tasks st @ [allocated st + 1]"
    by (simp add: r s waitForEmpty_def)
qed

text \<open>
  Claim C2. \<^verbatim>\<open>LeaveCluster\<close> on a node with no active decommissioner returns a result
  channel, and the decommission task resolves it as follows. When the capacity command
  succeeds or is skipped (capacity already 0), the node holds no replica or the
  \<^verbatim>\<open>select\<close> receives the empty signal, and \<^verbatim>\<open>RemoveNode\<close> succeeds, the channel holds
  \<^verbatim>\<open>EDecommissioned\<close> and the task's actions are, in this order: the
  \<^verbatim>\<open>ClusterUpdateNodeBody\<close> command with capacity 0 (unless skipped), \<^verbatim>\<open>StopAllTransfers\<close>,
  and, if replicas are held, the locking of the held partitions and the wait that ends
  with the empty signal, then \<^verbatim>\<open>RemoveNode\<close>. When the context is cancelled during the wait
  the channel holds \<^verbatim>\<open>ECancelled\<close>, when the node learns it left the cluster \<^verbatim>\<open>ERemoved\<close>,
  in both cases with no \<^verbatim>\<open>RemoveNode\<close> proposed; while no signal arrives the channel stays
  empty. Conversely, when the channel holds \<^verbatim>\<open>EDecommissioned\<close> (and neither proposal
  failed with that very error), the actions were that sequence: the result comes only
  after it. The empty signal is an input here: the code that sends it is outside the
  files at hand.
\<close>

theorem C2_leave_cluster_resolves_after_drain:
  assumes "shutdownDecommissioner (node st) = None"
  shows "fst (LeaveCluster None st) = (None, Some (allocated st + 2))
   \<and> (LocalNodeConfig env = Some cfg
        \<and> (NodeConfig_Capacity cfg = 0 \<or> ClusterCommand_result env = None)
        \<and> (LocalNodeHeldPartitionReplicas env = [] \<or> drain_select env = Some Empty)
        \<and> RemoveNode_result env = None \<longrightarrow>
          channel (decommission_task env n (snd (LeaveCluster None st))) (allocated st + 2) =
            [EDecommissioned]
        \<and> actions (decommission_task env n (snd (LeaveCluster None st))) =
            actions st @ decommission_sequence env n cfg)
   \<and> (LocalNodeConfig env = Some cfg
        \<and> (NodeConfig_Capacity cfg = 0 \<or> ClusterCommand_result env = None)
        \<and> LocalNodeHeldPartitionReplicas env \<noteq> [] \<and> drain_select env = Some CtxDone \<longrightarrow>
          channel (decommission_task env n (snd (LeaveCluster None st))) (allocated st + 2) =
            [ECancelled]
        \<and> (\<exists>tr. actions (decommission_task env n (snd (LeaveCluster None st))) = actions st @ tr
                \<and> RemoveNode n \<notin> set tr))
   \<and> (LocalNodeConfig env = Some cfg
        \<and> (NodeConfig_Capacity cfg = 0 \<or> ClusterCommand_result env = None)
        \<and> LocalNodeHeldPartitionReplicas env \<noteq> [] \<and> drain_select env = Some LeftCluster \<longrightarrow>
          channel (decommission_task env n (snd (LeaveCluster None st))) (allocated st + 2) =
            [ERemoved]
        \<and> (\<exists>tr. actions (decommission_task env n (snd (LeaveCluster None st))) = actions st @ tr
                \<and> RemoveNode n \<notin> set tr))
   \<and> (LocalNodeConfig env = Some cfg
        \<and> (NodeConfig_Capacity cfg = 0 \<or> ClusterCommand_result env = None)
        \<and> LocalNodeHeldPartitionReplicas env \<noteq> [] \<and> drain_select env = None \<longrightarrow>
          channel (decommission_task env n (snd (LeaveCluster None st))) (allocated st + 2) = [])
   \<and> (channel (decommission_task env n (snd (LeaveCluster None st))) (allocated st + 2) =
          [EDecommissioned]
        \<and> ClusterCommand_result env \<noteq> Some EDecommissioned
        \<and> RemoveNode_result env \<noteq> Some EDecommissioned \<longrightarrow>
          (\<exists>cfg'. LocalNodeConfig env = Some cfg'
             \<and> actions (decommission_task env n (snd (LeaveCluster None st))) =
                 actions st @ decommission_sequence env n cfg'
             \<and> (NodeConfig_Capacity cfg' = 0 \<or> ClusterCommand_result env = None)
             \<and> (LocalNodeHeldPartitionReplicas env = [] \<or> drain_select env = Some Empty)
             \<and> RemoveNode_result env = None))"
proof -
  let ?st1 = "snd (LeaveCluster None st)"
  let ?c = "allocated st + 2"
  note s = LeaveCluster_starts[OF assms]
  note t = decommission_task_sends[OF s(2), of env n]
  have p1: "fst (LeaveCluster None st) = (None, Some ?c)" by (rule s)
  have p2: "channel (decommission_task env n ?st1) ?c = [EDecommissioned]
        \<and> actions (decommission_task env n ?st1) = actions st @ decommission_sequence env n cfg"
    if h: "LocalNodeConfig env = Some cfg"
       "NodeConfig_Capacity cfg = 0 \<or> ClusterCommand_result env = None"
       "LocalNodeHeldPartitionReplicas env = [] \<or> drain_select env = Some Empty"
       "RemoveNode_result env = None"
    using t(1)[OF decommission_succeeds[OF h]] by (simp add: s del: add_2_eq_Suc add_2_eq_Suc')
  have p3: "channel (decommission_task env n ?st1) ?c = [ECancelled]
        \<and> (\<exists>tr. actions (decommission_task env n ?st1) = actions st @ tr \<and> RemoveNode n \<notin> set tr)"
    if h: "LocalNodeConfig env = Some cfg"
       "NodeConfig_Capacity cfg = 0 \<or> ClusterCommand_result env = None"
       "LocalNodeHeldPartitionReplicas env \<noteq> []" "drain_select env = Some CtxDone"
  proof -
    obtain tr where d: "decommission env n = Returns (ECancelled, tr)" "RemoveNode n \<notin> set tr"
      using decommission_interrupted(1)[OF h(1,2,3,4)] by blast
    show ?thesis using t(1)[OF d(1)] d(2) by (simp add: s del: add_2_eq_Suc add_2_eq_Suc')
  qed
  have p4: "channel (decommission_task env n ?st1) ?c = [ERemoved]
        \<and> (\<exists>tr. actions (decommission_task env n ?st1) = actions st @ tr \<and> RemoveNode n \<notin> set tr)"
    if h: "LocalNodeConfig env = Some cfg"
       "NodeConfig_Capacity cfg = 0 \<or> ClusterCommand_result env = None"
       "LocalNodeHeldPartitionReplicas env \<noteq> []" "drain_select env = Some LeftCluster"
  proof -
    obtain tr where d: "decommission env n = Returns (ERemoved, tr)" "RemoveNode n \<notin> set tr"
      using decommission_interrupted(2)[OF h(1,2,3,4)] by blast
    show ?thesis using t(1)[OF d(1)] d(2) by (simp add: s del: add_2_eq_Suc add_2_eq_Suc')
  qed
  have p5: "channel (decommission_task env n ?st1) ?c = []"
    if h: "LocalNodeConfig env = Some cfg"
       "NodeConfig_Capacity cfg = 0 \<or> ClusterCommand_result env = None"
       "LocalNodeHeldPartitionReplicas env \<noteq> []" "drain_select env = None"
    using t(2)[OF decommission_interrupted(3)[OF h(1,2,3,4)]] by (simp add: s del: add_2_eq_Suc add_2_eq_Suc')
  have p6: "\<exists>cfg'. LocalNodeConfig env = Some cfg'
             \<and> actions (decommission_task env n ?st1) = actions st @ decommission_sequence env n cfg'
             \<and> (NodeConfig_Capacity cfg' = 0 \<or> ClusterCommand_result env = None)
             \<and> (LocalNodeHeldPartitionReplicas env = [] \<or> drain_select env = Some Empty)
             \<and> RemoveNode_result env = None"
    if ch: "channel (decommission_task env n ?st1) ?c = [EDecommissioned]"
       and ne: "ClusterCommand_result env \<noteq> Some EDecommissioned"
               "RemoveNode_result env \<noteq> Some EDecommissioned"
  proof (cases "decommission env n")
    case Blocks
    then show ?thesis using ch t(2) by (simp add: s del: add_2_eq_Suc add_2_eq_Suc')
  next
    case (Returns r)
    obtain e tr where r: "r = (e, tr)" by (cases r)
    have "e = EDecommissioned" using t(1)[of e tr] Returns r ch by (simp add: s del: add_2_eq_Suc add_2_eq_Suc')
    then have d: "decommission env n = Returns (EDecommissioned, tr)" using Returns r by simp
    show ?thesis
      using decommission_only_after[OF d ne] t(1)[OF d] by (auto simp: s simp del: add_2_eq_Suc add_2_eq_Suc')
  qed
  show ?thesis
    using p1 p2 p3 p4 p5 p6 by blast
qed

text \<open>Two calls of \<^verbatim>\<open>LeaveCluster\<close> on a fresh node: both return channel 2.\<close>

theorem C6_leave_cluster_idempotent_witness:
  "shutdownDecommissioner (node example_node_state) = None
   \<and> shutdownDecommissioner (node (snd (LeaveCluster None example_node_state))) = Some 1
   \<and> fst (LeaveCluster None example_node_state) = (None, Some 2)
   \<and> fst (LeaveCluster None (snd (LeaveCluster None example_node_state))) = (None, Some 2)
   \<and> SetDecommissioningFlag_calls
        (snd (LeaveCluster None (snd (LeaveCluster None example_node_state)))) = 1
   \<and> decommission_tasks
        (snd (LeaveCluster None (snd (LeaveCluster None example_node_state)))) = [1]"
proof -
  have h: "shutdownDecommissioner (node example_node_state) = None"
    by (simp add: example_node_state_def)
  have a: "shutdownDecommissioner (node (snd (LeaveCluster None example_node_state))) = Some 1"
    by (simp add: LeaveCluster_def waitForEmpty_def example_node_state_def Let_def)
  have v: "allocated example_node_state = 0"
          "SetDecommissioningFlag_calls example_node_state = 0"
          "decommission_tasks example_node_state = []"
    by (simp_all add: example_node_state_def)
  show ?thesis
    using C6_leave_cluster_idempotent[of example_node_state None] h a
    by (simp add: v)
qed

text \<open>
  A node of capacity 10 that holds partition 7: the run to the end, a cancelled run and
  a run of a removed node.
\<close>

theorem C2_leave_cluster_resolves_after_drain_witness:
  "shutdownDecommissioner (node example_node_state) = None
   \<and> fst (LeaveCluster None example_node_state) = (None, Some 2)
   \<and> channel (decommission_task (example_decommission_env (Some Empty)) 2
        (snd (LeaveCluster None example_node_state))) 2 = [EDecommissioned]
   \<and> actions (decommission_task (example_decommission_env (Some Empty)) 2
        (snd (LeaveCluster None example_node_state))) =
       [ClusterCommand (ClusterUpdateNodeBody 2
          \<lparr>NodeConfig_Capacity = 0,
           NodeConfig_Address = \<lparr>NodeID = 2, Host = ''10.0.0.2'', Port = 8080\<rparr>\<rparr>),
        StopAllTransfers, EnableOutgoingTransfers 7, LockWrites 7, Select Empty, RemoveNode 2]
   \<and> channel (decommission_task (example_decommission_env (Some CtxDone)) 2
        (snd (LeaveCluster None example_node_state))) 2 = [ECancelled]
   \<and> channel (decommission_task (example_decommission_env (Some LeftCluster)) 2
        (snd (LeaveCluster None example_node_state))) 2 = [ERemoved]"
proof -
  have h: "shutdownDecommissioner (node example_node_state) = None"
    by (simp add: example_node_state_def)
  have v: "allocated example_node_state = 0" "actions example_node_state = []"
    by (simp_all add: example_node_state_def)
  have e: "LocalNodeConfig (example_decommission_env sg) = Some example_NodeConfig"
          "ClusterCommand_result (example_decommission_env sg) = None"
          "LocalNodeHeldPartitionReplicas (example_decommission_env sg) =
             [\<lparr>PartitionReplica_Partition = 7, PartitionReplica_Replica = 0\<rparr>]"
          "drain_select (example_decommission_env sg) = sg"
          "RemoveNode_result (example_decommission_env sg) = None" for sg
    by (simp_all add: example_decommission_env_def)
  have sq: "decommission_sequence (example_decommission_env (Some Empty)) 2 example_NodeConfig =
       [ClusterCommand (ClusterUpdateNodeBody 2
          \<lparr>NodeConfig_Capacity = 0,
           NodeConfig_Address = \<lparr>NodeID = 2, Host = ''10.0.0.2'', Port = 8080\<rparr>\<rparr>),
        StopAllTransfers, EnableOutgoingTransfers 7, LockWrites 7, Select Empty, RemoveNode 2]"
    by (simp add: decommission_sequence_def example_decommission_env_def example_NodeConfig_def)
  show ?thesis
    using C2_leave_cluster_resolves_after_drain[OF h,
            of "example_decommission_env (Some Empty)" example_NodeConfig 2]
          C2_leave_cluster_resolves_after_drain[OF h,
            of "example_decommission_env (Some CtxDone)" example_NodeConfig 2]
          C2_leave_cluster_resolves_after_drain[OF h,
            of "example_decommission_env (Some LeftCluster)" example_NodeConfig 2]
          h
    by (simp add: v e sq del: add_2_eq_Suc add_2_eq_Suc')
qed

section \<open>Properties of joinCluster\<close>

lemma is_dup_iff:
  "(case err of Some (DBerror m c) \<Rightarrow> DBerror m c = EDuplicateNodeID | _ \<Rightarrow> False)
     = (err = Some EDuplicateNodeID)"
  by (auto simp: EDuplicateNodeID_def split: option.splits error.splits)

lemma joinCluster_Cons:
  "joinCluster (a # rest) =
     (if wasAdded a then Returns None
      else if AddNode_result a = Some EDuplicateNodeID
      then go_select
             [(JoinedCluster, Returns None),
              (Shutdown, Returns (Some EStopped)),
              (After time_Minute, Returns (Some EDuplicateNodeID))] (fired a)
      else if AddNode_result a \<noteq> None
      then go_select
             [(JoinedCluster, Returns None),
              (Shutdown, Returns (Some EStopped)),
              (After (time_Second * ClusterJoinRetryTimeout), joinCluster rest)] (fired a)
      else go_select
             [(JoinedCluster, Returns None),
              (Shutdown, Returns (Some EStopped))] (fired a))"
  by (simp only: joinCluster.simps is_dup_iff)

declare joinCluster.simps(2) [simp del]

lemma joinCluster_retries: "list_all retries pre \<Longrightarrow> joinCluster (pre @ rest) = joinCluster rest"
proof (induction pre)
  case Nil
  show ?case by simp
next
  case (Cons a pre)
  then have r: "retries a" and ih: "joinCluster (pre @ rest) = joinCluster rest" by simp_all
  from r show ?case
    by (auto simp: joinCluster_Cons retries_def go_select_def ih split: option.splits)
qed

lemma joinCluster_joined:
  "wasAdded a \<or> fired a = Some JoinedCluster \<Longrightarrow> joinCluster (a # rest) = Returns None"
  by (auto simp: joinCluster_Cons go_select_def)

lemma joinCluster_results:
  "joinCluster script = Returns r \<Longrightarrow> r = None \<or> r = Some EStopped \<or> r = Some EDuplicateNodeID"
proof (induction script)
  case Nil
  then show ?case by simp
next
  case (Cons a script)
  then show ?case
    by (auto simp: joinCluster_Cons go_select_def split: if_splits option.splits join_signal.splits)
qed

text \<open>
  Claim C3. \<^verbatim>\<open>time.Minute\<close> is 60 seconds and the retry interval
  \<^verbatim>\<open>time.Second * ClusterJoinRetryTimeout\<close> is 5 seconds. In a round where the watcher did
  not see \<^verbatim>\<open>joinedCluster\<close> during the request: if \<^verbatim>\<open>AddNode\<close> failed with
  \<^verbatim>\<open>EDuplicateNodeID\<close>, \<^verbatim>\<open>joinCluster\<close> returns nil when \<^verbatim>\<open>joinedCluster\<close> arrives first,
  \<^verbatim>\<open>EStopped\<close> when shutdown does, and \<^verbatim>\<open>EDuplicateNodeID\<close> when the one-minute timer
  fires; if it failed with any other error, \<^verbatim>\<open>joinCluster\<close> goes to the next round when
  the 5-second timer fires, returns \<^verbatim>\<open>EStopped\<close> on shutdown during the wait and nil on
  \<^verbatim>\<open>joinedCluster\<close>. And after any number of rounds that ended in a retry, a round in which
  \<^verbatim>\<open>joinedCluster\<close> arrives (during the request or at the \<^verbatim>\<open>select\<close>) makes \<^verbatim>\<open>joinCluster\<close>
  return nil.
\<close>

theorem C3_join_cluster_waits_and_retries:
  "time_Minute = 60 * 1000000000
   \<and> time_Second * ClusterJoinRetryTimeout = 5 * 1000000000
   \<and> (\<not> wasAdded a \<and> AddNode_result a = Some EDuplicateNodeID \<longrightarrow>
        (fired a = Some JoinedCluster \<longrightarrow> joinCluster (a # rest) = Returns None)
      \<and> (fired a = Some Shutdown \<longrightarrow> joinCluster (a # rest) = Returns (Some EStopped))
      \<and> (fired a = Some (After time_Minute) \<longrightarrow>
            joinCluster (a # rest) = Returns (Some EDuplicateNodeID)))
   \<and> (\<not> wasAdded a \<and> AddNode_result a = Some e \<and> e \<noteq> EDuplicateNodeID \<longrightarrow>
        (fired a = Some (After (time_Second * ClusterJoinRetryTimeout)) \<longrightarrow>
            joinCluster (a # rest) = joinCluster rest)
      \<and> (fired a = Some Shutdown \<longrightarrow> joinCluster (a # rest) = Returns (Some EStopped))
      \<and> (fired a = Some JoinedCluster \<longrightarrow> joinCluster (a # rest) = Returns None))
   \<and> (list_all retries pre \<and> (wasAdded a \<or> fired a = Some JoinedCluster) \<longrightarrow>
        joinCluster (pre @ a # rest) = Returns None)"
proof -
  have t: "time_Minute = 60 * 1000000000" "time_Second * ClusterJoinRetryTimeout = 5 * 1000000000"
    by (simp_all add: time_Minute_def time_Second_def ClusterJoinRetryTimeout_def)
  have d: "\<not> wasAdded a \<and> AddNode_result a = Some EDuplicateNodeID \<longrightarrow>
        (fired a = Some JoinedCluster \<longrightarrow> joinCluster (a # rest) = Returns None)
      \<and> (fired a = Some Shutdown \<longrightarrow> joinCluster (a # rest) = Returns (Some EStopped))
      \<and> (fired a = Some (After time_Minute) \<longrightarrow>
            joinCluster (a # rest) = Returns (Some EDuplicateNodeID))"
    by (simp add: joinCluster_Cons go_select_def)
  have o: "\<not> wasAdded a \<and> AddNode_result a = Some e \<and> e \<noteq> EDuplicateNodeID \<longrightarrow>
        (fired a = Some (After (time_Second * ClusterJoinRetryTimeout)) \<longrightarrow>
            joinCluster (a # rest) = joinCluster rest)
      \<and> (fired a = Some Shutdown \<longrightarrow> joinCluster (a # rest) = Returns (Some EStopped))
      \<and> (fired a = Some JoinedCluster \<longrightarrow> joinCluster (a # rest) = Returns None)"
    by (simp add: joinCluster_Cons go_select_def)
  have j: "list_all retries pre \<and> (wasAdded a \<or> fired a = Some JoinedCluster) \<longrightarrow>
        joinCluster (pre @ a # rest) = Returns None"
    using joinCluster_retries[of pre "a # rest"] joinCluster_joined[of a rest] by auto
  show ?thesis using t d o j by blast
qed

text \<open>
  Concrete rounds: a duplicate ID followed by the minute's end, by shutdown and by
  \<^verbatim>\<open>joinedCluster\<close>; a refused connection retried, then shutdown, or then a join.
\<close>

theorem C3_join_cluster_waits_and_retries_witness:
  "joinCluster [example_attempt (Some EDuplicateNodeID) (Some (After time_Minute))] =
     Returns (Some EDuplicateNodeID)
   \<and> joinCluster [example_attempt (Some EDuplicateNodeID) (Some Shutdown)] =
     Returns (Some EStopped)
   \<and> joinCluster [example_attempt (Some EDuplicateNodeID) (Some JoinedCluster)] = Returns None
   \<and> joinCluster
        [example_attempt (Some (OtherError ''connection refused''))
           (Some (After (time_Second * ClusterJoinRetryTimeout))),
         example_attempt (Some (OtherError ''connection refused'')) (Some Shutdown)] =
     Returns (Some EStopped)
   \<and> joinCluster
        [example_attempt (Some (OtherError ''connection refused''))
           (Some (After (time_Second * ClusterJoinRetryTimeout))),
         example_attempt None (Some JoinedCluster)] = Returns None"
proof -
  let ?retry = "example_attempt (Some (OtherError ''connection refused''))
           (Some (After (time_Second * ClusterJoinRetryTimeout)))"
  let ?stop = "example_attempt (Some (OtherError ''connection refused'')) (Some Shutdown)"
  have ne: "OtherError ''connection refused'' \<noteq> EDuplicateNodeID"
    by (simp add: EDuplicateNodeID_def)
  have f: "wasAdded (example_attempt err s) = False"
          "AddNode_result (example_attempt err s) = err"
          "fired (example_attempt err s) = s" for err s
    by (simp_all add: example_attempt_def)
  have r: "list_all retries [?retry]"
    by (simp add: retries_def f ne)
  have c1: "joinCluster [example_attempt (Some EDuplicateNodeID) (Some (After time_Minute))] =
     Returns (Some EDuplicateNodeID)"
    using C3_join_cluster_waits_and_retries
            [of "example_attempt (Some EDuplicateNodeID) (Some (After time_Minute))" "[]"]
    by (simp add: f)
  have c2: "joinCluster [example_attempt (Some EDuplicateNodeID) (Some Shutdown)] =
     Returns (Some EStopped)"
    using C3_join_cluster_waits_and_retries
            [of "example_attempt (Some EDuplicateNodeID) (Some Shutdown)" "[]"]
    by (simp add: f)
  have c3: "joinCluster [example_attempt (Some EDuplicateNodeID) (Some JoinedCluster)] = Returns None"
    using C3_join_cluster_waits_and_retries
            [of "example_attempt (Some EDuplicateNodeID) (Some JoinedCluster)" "[]"]
    by (simp add: f)
  have c4: "joinCluster [?retry, ?stop] = Returns (Some EStopped)"
    using C3_join_cluster_waits_and_retries
            [of ?retry "[?stop]" "OtherError ''connection refused''"]
          C3_join_cluster_waits_and_retries
            [of ?stop "[]" "OtherError ''connection refused''"]
    by (simp add: f ne)
  have c5: "joinCluster [?retry, example_attempt None (Some JoinedCluster)] = Returns None"
  proof -
    let ?join = "example_attempt None (Some JoinedCluster)"
    have "list_all retries [?retry] \<and> (wasAdded ?join \<or> fired ?join = Some JoinedCluster) \<longrightarrow>
        joinCluster ([?retry] @ ?join # []) = Returns None"
      using C3_join_cluster_waits_and_retries[of ?join "[]" _ "[?retry]"] by blast
    moreover have "fired ?join = Some JoinedCluster" by (simp add: f)
    ultimately show ?thesis using r by simp
  qed
  show ?thesis using c1 c2 c3 c4 c5 by blast
qed

section \<open>Properties of the update monitor\<close>

lemma drain_pending_consecutive:
  "list_all (\<lambda>w. lastDeliveredVersion m < Row_LocalVersion w) (pending m) \<Longrightarrow>
   map Row_LocalVersion (fst (drain_pending m)) =
     [lastDeliveredVersion m + 1 ..< lastDeliveredVersion (snd (drain_pending m)) + 1]
   \<and> lastDeliveredVersion m \<le> lastDeliveredVersion (snd (drain_pending m))
   \<and> gap_free (snd (drain_pending m))"
proof (induction m rule: drain_pending.induct)
  case (1 m)
  let ?P = "\<lambda>u. Row_LocalVersion u = lastDeliveredVersion m + 1"
  show ?case
  proof (cases "find ?P (pending m)")
    case None
    then have "\<forall>w \<in> set (pending m). Row_LocalVersion w \<noteq> lastDeliveredVersion m + 1"
      by (auto simp: find_None_iff)
    with "1.prems" have "gap_free m"
      by (auto simp: gap_free_def list_all_iff) (metis Suc_lessI)
    moreover have "drain_pending m = ([], m)"
      by (subst drain_pending.simps) (simp only: None option.case)
    ultimately show ?thesis by simp
  next
    case (Some u)
    let ?m1 = "m\<lparr>lastDeliveredVersion := lastDeliveredVersion m + 1,
                  pending := filter (\<lambda>w. lastDeliveredVersion m + 1 < Row_LocalVersion w) (pending m)\<rparr>"
    have u: "Row_LocalVersion u = lastDeliveredVersion m + 1"
      using Some by (auto simp: find_Some_iff)
    have pre: "list_all (\<lambda>w. lastDeliveredVersion ?m1 < Row_LocalVersion w) (pending ?m1)"
      by (simp add: list_all_iff)
    note ih = "1.IH"[OF Some pre]
    have eq: "drain_pending m = (u # fst (drain_pending ?m1), snd (drain_pending ?m1))"
      by (subst drain_pending.simps) (simp only: Some option.case prod.case_eq_if)
    from ih have le: "lastDeliveredVersion m + 1 \<le> lastDeliveredVersion (snd (drain_pending ?m1))"
      by simp
    have "map Row_LocalVersion (fst (drain_pending m)) =
        (lastDeliveredVersion m + 1)
          # [lastDeliveredVersion m + 2 ..< lastDeliveredVersion (snd (drain_pending ?m1)) + 1]"
      using ih by (simp add: eq u)
    also have "\<dots> = [lastDeliveredVersion m + 1 ..< lastDeliveredVersion (snd (drain_pending ?m1)) + 1]"
      using le by (simp add: upt_conv_Cons)
    finally show ?thesis using ih le by (simp add: eq)
  qed
qed

lemma gap_free_NewMonitor: "gap_free (NewMonitor v)"
  by (simp add: gap_free_def NewMonitor_def)

lemma Notify_step:
  assumes "gap_free m"
  shows "map Row_LocalVersion (fst (Notify m u)) =
           (if Row_LocalVersion u = 0 \<and> lastDeliveredVersion m = 0 then [0] else [])
           @ [lastDeliveredVersion m + 1 ..< lastDeliveredVersion (snd (Notify m u)) + 1]
       \<and> lastDeliveredVersion m \<le> lastDeliveredVersion (snd (Notify m u))
       \<and> gap_free (snd (Notify m u))"
proof -
  consider (zero) "Row_LocalVersion u = 0"
    | (old) "Row_LocalVersion u \<noteq> 0" "Row_LocalVersion u \<le> lastDeliveredVersion m"
    | (succ) "Row_LocalVersion u = lastDeliveredVersion m + 1"
    | (later) "lastDeliveredVersion m + 1 < Row_LocalVersion u"
    by linarith
  then show ?thesis
  proof cases
    case zero
    with assms show ?thesis by (simp add: Notify_def)
  next
    case old
    with assms show ?thesis by (simp add: Notify_def)
  next
    case succ
    let ?m1 = "m\<lparr>lastDeliveredVersion := Row_LocalVersion u\<rparr>"
    have pre: "list_all (\<lambda>w. lastDeliveredVersion ?m1 < Row_LocalVersion w) (pending ?m1)"
      using assms succ by (simp add: gap_free_def)
    note d = drain_pending_consecutive[OF pre]
    have eq: "Notify m u = (u # fst (drain_pending ?m1), snd (drain_pending ?m1))"
      using succ by (simp add: Notify_def split: prod.split)
    from d have le: "lastDeliveredVersion m + 1 \<le> lastDeliveredVersion (snd (drain_pending ?m1))"
      using succ by simp
    have "map Row_LocalVersion (fst (Notify m u)) =
        (lastDeliveredVersion m + 1)
          # [lastDeliveredVersion m + 2 ..< lastDeliveredVersion (snd (drain_pending ?m1)) + 1]"
      using d succ by (simp add: eq)
    also have "\<dots> = [lastDeliveredVersion m + 1 ..< lastDeliveredVersion (snd (drain_pending ?m1)) + 1]"
      using le by (simp add: upt_conv_Cons)
    finally show ?thesis using d le succ by (simp add: eq)
  next
    case later
    with assms show ?thesis by (simp add: Notify_def gap_free_def)
  qed
qed

lemma Notify_all_Cons:
  "fst (Notify_all m (u # us)) = fst (Notify m u) @ fst (Notify_all (snd (Notify m u)) us)"
  "snd (Notify_all m (u # us)) = snd (Notify_all (snd (Notify m u)) us)"
  by (simp_all split: prod.split)

declare Notify_all.simps(2) [simp del]

lemma Notify_all_versions:
  "gap_free m \<Longrightarrow>
   \<exists>k. map Row_LocalVersion (fst (Notify_all m us)) =
          replicate k 0
          @ [lastDeliveredVersion m + 1 ..< lastDeliveredVersion (snd (Notify_all m us)) + 1]
      \<and> (lastDeliveredVersion m \<noteq> 0 \<longrightarrow> k = 0)
      \<and> lastDeliveredVersion m \<le> lastDeliveredVersion (snd (Notify_all m us))
      \<and> gap_free (snd (Notify_all m us))"
proof (induction us arbitrary: m)
  case Nil
  then show ?case by simp
next
  case (Cons u us)
  let ?m1 = "snd (Notify m u)"
  let ?m2 = "snd (Notify_all ?m1 us)"
  let ?l = "lastDeliveredVersion m" and ?l1 = "lastDeliveredVersion ?m1"
  let ?l2 = "lastDeliveredVersion ?m2"
  let ?z = "if Row_LocalVersion u = 0 \<and> ?l = 0 then [0::nat] else []"
  note st = Notify_step[OF Cons.prems, of u]
  then have g1: "gap_free ?m1" and le1: "?l \<le> ?l1"
    and v1: "map Row_LocalVersion (fst (Notify m u)) = ?z @ [?l + 1 ..< ?l1 + 1]"
    by simp_all
  from Cons.IH[OF g1] obtain k2 where
    ih: "map Row_LocalVersion (fst (Notify_all ?m1 us)) = replicate k2 0 @ [?l1 + 1 ..< ?l2 + 1]"
        "?l1 \<noteq> 0 \<longrightarrow> k2 = 0" "?l1 \<le> ?l2" "gap_free ?m2"
    by blast
  have all: "map Row_LocalVersion (fst (Notify_all m (u # us))) =
      ?z @ [?l + 1 ..< ?l1 + 1] @ replicate k2 0 @ [?l1 + 1 ..< ?l2 + 1]"
    by (simp only: Notify_all_Cons map_append v1 ih(1) append_assoc)
  have le2: "?l \<le> ?l2" using le1 ih(3) by simp
  have "\<exists>k. ?z @ [?l + 1 ..< ?l1 + 1] @ replicate k2 0 @ [?l1 + 1 ..< ?l2 + 1] =
           replicate k 0 @ [?l + 1 ..< ?l2 + 1] \<and> (?l \<noteq> 0 \<longrightarrow> k = 0)"
  proof (cases "?l1 = ?l")
    case True
    have "?z @ [?l + 1 ..< ?l1 + 1] @ replicate k2 0 @ [?l1 + 1 ..< ?l2 + 1] =
        replicate (length ?z + k2) 0 @ [?l + 1 ..< ?l2 + 1]"
      unfolding True by (simp add: replicate_add del: upt_Suc)
    moreover have "?l \<noteq> 0 \<longrightarrow> length ?z + k2 = 0"
      using ih(2) True by simp
    ultimately show ?thesis by blast
  next
    case False
    with le1 have lt: "?l < ?l1" by simp
    then have k2: "k2 = 0" using ih(2) by simp
    have z: "?z = []"
    proof (rule ccontr)
      assume "?z \<noteq> []"
      then have "Row_LocalVersion u = 0 \<and> ?l = 0" by (simp split: if_splits)
      then have "Notify m u = ([u], m)" by (simp add: Notify_def)
      with False show False by simp
    qed
    have "[?l + 1 ..< ?l1 + 1] @ [?l1 + 1 ..< ?l2 + 1] = [?l + 1 ..< ?l2 + 1]"
    proof -
      have a: "?l + 1 \<le> ?l1 + 1" using lt by simp
      have b: "?l2 + 1 = (?l1 + 1) + (?l2 - ?l1)" using ih(3) by simp
      show ?thesis
        using upt_add_eq_append[OF a, of "?l2 - ?l1"] by (simp only: b[symmetric])
    qed
    then have "?z @ [?l + 1 ..< ?l1 + 1] @ replicate k2 0 @ [?l1 + 1 ..< ?l2 + 1] =
        replicate 0 0 @ [?l + 1 ..< ?l2 + 1]"
      unfolding z k2 by (simp del: upt_Suc)
    then show ?thesis by blast
  qed
  then obtain k where
    "?z @ [?l + 1 ..< ?l1 + 1] @ replicate k2 0 @ [?l1 + 1 ..< ?l2 + 1] =
           replicate k 0 @ [?l + 1 ..< ?l2 + 1]" "?l \<noteq> 0 \<longrightarrow> k = 0"
    by blast
  with all le2 ih(4) show ?case
    by (metis Notify_all_Cons(2))
qed

lemma Notify_all_reachable: "gap_free (snd (Notify_all (NewMonitor v) us))"
  using Notify_all_versions[OF gap_free_NewMonitor, of v us] by blast

lemma positive_versions_increasing:
  assumes "map Row_LocalVersion rs = replicate k 0 @ [a ..< b]"
  shows "sorted_wrt (<) (map Row_LocalVersion
           (filter (\<lambda>r. Row_LocalVersion r \<noteq> 0) (received listens rs)))"
proof -
  have "map Row_LocalVersion (filter (\<lambda>r. Row_LocalVersion r \<noteq> 0) rs) =
      filter (\<lambda>v. v \<noteq> 0) (map Row_LocalVersion rs)"
    by (simp add: filter_map comp_def)
  also have "\<dots> = filter (\<lambda>v. v \<noteq> 0) [a ..< b]"
    by (simp add: assms)
  finally have "sorted_wrt (<) (map Row_LocalVersion (filter (\<lambda>r. Row_LocalVersion r \<noteq> 0) rs))"
    by (simp add: sorted_wrt_filter)
  then have "sorted_wrt (\<lambda>x y. Row_LocalVersion x < Row_LocalVersion y)
      (filter (\<lambda>r. Row_LocalVersion r \<noteq> 0) rs)"
    by (simp add: sorted_wrt_map)
  then have "sorted_wrt (\<lambda>x y. Row_LocalVersion x < Row_LocalVersion y)
      (filter listens (filter (\<lambda>r. Row_LocalVersion r \<noteq> 0) rs))"
    by (rule sorted_wrt_filter)
  moreover have "filter listens (filter (\<lambda>r. Row_LocalVersion r \<noteq> 0) rs) =
      filter (\<lambda>r. Row_LocalVersion r \<noteq> 0) (received listens rs)"
    by (auto simp: received_def intro: filter_cong)
  ultimately show ?thesis by (simp add: sorted_wrt_map)
qed

text \<open>Draining delivers buffered updates only, and keeps exactly those still ahead.\<close>

lemma drain_pending_keeps:
  "list_all (\<lambda>w. lastDeliveredVersion m < Row_LocalVersion w) (pending m) \<Longrightarrow>
   set (fst (drain_pending m)) \<subseteq> set (pending m)
   \<and> pending (snd (drain_pending m)) =
       filter (\<lambda>w. lastDeliveredVersion (snd (drain_pending m)) < Row_LocalVersion w) (pending m)"
proof (induction m rule: drain_pending.induct)
  case (1 m)
  let ?P = "\<lambda>u. Row_LocalVersion u = lastDeliveredVersion m + 1"
  show ?case
  proof (cases "find ?P (pending m)")
    case None
    have eq: "drain_pending m = ([], m)"
      by (subst drain_pending.simps) (simp only: None option.case)
    have "filter (\<lambda>w. lastDeliveredVersion m < Row_LocalVersion w) (pending m) = pending m"
      using "1.prems" by (simp add: list_all_iff)
    then show ?thesis by (simp add: eq)
  next
    case (Some u)
    let ?m1 = "m\<lparr>lastDeliveredVersion := lastDeliveredVersion m + 1,
                  pending := filter (\<lambda>w. lastDeliveredVersion m + 1 < Row_LocalVersion w) (pending m)\<rparr>"
    have u: "u \<in> set (pending m)"
      using Some by (auto simp: find_Some_iff)
    have pre: "list_all (\<lambda>w. lastDeliveredVersion ?m1 < Row_LocalVersion w) (pending ?m1)"
      by (simp add: list_all_iff)
    note ih = "1.IH"[OF Some pre]
    note mono = drain_pending_consecutive[OF pre]
    have eq: "drain_pending m = (u # fst (drain_pending ?m1), snd (drain_pending ?m1))"
      by (subst drain_pending.simps) (simp only: Some option.case prod.case_eq_if)
    have le: "lastDeliveredVersion m + 1 \<le> lastDeliveredVersion (snd (drain_pending ?m1))"
      using mono by simp
    have s: "set (fst (drain_pending m)) \<subseteq> set (pending m)"
      using ih u by (auto simp: eq)
    have "pending (snd (drain_pending m)) =
        filter (\<lambda>w. lastDeliveredVersion (snd (drain_pending ?m1)) < Row_LocalVersion w)
          (filter (\<lambda>w. lastDeliveredVersion m + 1 < Row_LocalVersion w) (pending m))"
      using ih by (simp add: eq)
    also have "\<dots> = filter (\<lambda>w. lastDeliveredVersion (snd (drain_pending ?m1)) < Row_LocalVersion w)
          (pending m)"
      using le by (auto simp: filter_filter intro!: filter_cong)
    finally show ?thesis using s by (simp add: eq)
  qed
qed

text \<open>One notification: what it delivers was notified, and nothing notified is lost.\<close>

lemma Notify_keeps:
  assumes "gap_free m"
  shows "set (fst (Notify m u)) \<subseteq> insert u (set (pending m))"
    and "set (pending (snd (Notify m u))) \<subseteq> insert u (set (pending m))"
    and "\<forall>w \<in> insert u (set (pending m)).
           Row_LocalVersion w \<le> lastDeliveredVersion (snd (Notify m u))
           \<or> w \<in> set (pending (snd (Notify m u)))"
proof -
  consider (zero) "Row_LocalVersion u = 0"
    | (old) "Row_LocalVersion u \<noteq> 0" "Row_LocalVersion u \<le> lastDeliveredVersion m"
    | (succ) "Row_LocalVersion u = lastDeliveredVersion m + 1"
    | (later) "lastDeliveredVersion m + 1 < Row_LocalVersion u"
    by linarith
  then have "set (fst (Notify m u)) \<subseteq> insert u (set (pending m))
     \<and> set (pending (snd (Notify m u))) \<subseteq> insert u (set (pending m))
     \<and> (\<forall>w \<in> insert u (set (pending m)).
           Row_LocalVersion w \<le> lastDeliveredVersion (snd (Notify m u))
           \<or> w \<in> set (pending (snd (Notify m u))))"
  proof cases
    case zero
    then show ?thesis by (auto simp: Notify_def)
  next
    case old
    then show ?thesis by (auto simp: Notify_def)
  next
    case succ
    let ?m1 = "m\<lparr>lastDeliveredVersion := Row_LocalVersion u\<rparr>"
    have pre: "list_all (\<lambda>w. lastDeliveredVersion ?m1 < Row_LocalVersion w) (pending ?m1)"
      using assms succ by (simp add: gap_free_def)
    note k = drain_pending_keeps[OF pre]
    note c = drain_pending_consecutive[OF pre]
    have eq: "Notify m u = (u # fst (drain_pending ?m1), snd (drain_pending ?m1))"
      using succ by (simp add: Notify_def split: prod.split)
    have le: "Row_LocalVersion u \<le> lastDeliveredVersion (snd (drain_pending ?m1))"
      using c by simp
    show ?thesis
      using k le by (auto simp: eq)
  next
    case later
    then show ?thesis by (auto simp: Notify_def)
  qed
  then show "set (fst (Notify m u)) \<subseteq> insert u (set (pending m))"
    and "set (pending (snd (Notify m u))) \<subseteq> insert u (set (pending m))"
    and "\<forall>w \<in> insert u (set (pending m)).
           Row_LocalVersion w \<le> lastDeliveredVersion (snd (Notify m u))
           \<or> w \<in> set (pending (snd (Notify m u)))"
    by blast+
qed

lemma Notify_all_keeps:
  "gap_free m \<Longrightarrow>
   set (fst (Notify_all m us)) \<subseteq> set (pending m) \<union> set us
   \<and> set (pending (snd (Notify_all m us))) \<subseteq> set (pending m) \<union> set us
   \<and> (\<forall>w \<in> set (pending m) \<union> set us.
         Row_LocalVersion w \<le> lastDeliveredVersion (snd (Notify_all m us))
         \<or> w \<in> set (pending (snd (Notify_all m us))))"
proof (induction us arbitrary: m)
  case Nil
  then show ?case by simp
next
  case (Cons u us)
  let ?m1 = "snd (Notify m u)"
  let ?m2 = "snd (Notify_all ?m1 us)"
  note st = Notify_step[OF Cons.prems, of u]
  then have g1: "gap_free ?m1" by simp
  note k1 = Notify_keeps[OF Cons.prems, of u]
  note ih = Cons.IH[OF g1]
  obtain k where "lastDeliveredVersion ?m1 \<le> lastDeliveredVersion ?m2"
    using Notify_all_versions[OF g1, of us] by blast
  note le = this
  have a: "set (fst (Notify_all m (u # us))) \<subseteq> set (pending m) \<union> set (u # us)"
    using k1(1,2) ih by (auto simp: Notify_all_Cons)
  have b: "set (pending (snd (Notify_all m (u # us)))) \<subseteq> set (pending m) \<union> set (u # us)"
    using k1(2) ih by (auto simp: Notify_all_Cons)
  have c: "\<forall>w \<in> set (pending m) \<union> set (u # us).
         Row_LocalVersion w \<le> lastDeliveredVersion (snd (Notify_all m (u # us)))
         \<or> w \<in> set (pending (snd (Notify_all m (u # us))))"
  proof
    fix w assume w: "w \<in> set (pending m) \<union> set (u # us)"
    show "Row_LocalVersion w \<le> lastDeliveredVersion (snd (Notify_all m (u # us)))
         \<or> w \<in> set (pending (snd (Notify_all m (u # us))))"
    proof (cases "w \<in> set us")
      case True
      then show ?thesis using ih by (simp add: Notify_all_Cons)
    next
      case False
      with w have "w \<in> insert u (set (pending m))" by auto
      with k1(3) have "Row_LocalVersion w \<le> lastDeliveredVersion ?m1 \<or> w \<in> set (pending ?m1)"
        by blast
      then show ?thesis
      proof
        assume "Row_LocalVersion w \<le> lastDeliveredVersion ?m1"
        with le show ?thesis by (simp add: Notify_all_Cons)
      next
        assume "w \<in> set (pending ?m1)"
        then show ?thesis using ih by (simp add: Notify_all_Cons)
      qed
    qed
  qed
  from a b c show ?case by blast
qed

lemma versions_increasing:
  assumes "map Row_LocalVersion rs = replicate k 0 @ [a ..< b]"
  shows "sorted_wrt (\<le>) (map Row_LocalVersion (received listens rs))"
    and "k = 0 \<Longrightarrow> sorted_wrt (<) (map Row_LocalVersion (received listens rs))"
proof -
  have le: "sorted_wrt (\<le>) (replicate k (0::nat) @ [a ..< b])"
    using sorted_append[of "replicate k (0::nat)" "[a ..< b]"] by (simp del: upt_Suc)
  then have "sorted_wrt (\<lambda>x y. Row_LocalVersion x \<le> Row_LocalVersion y) rs"
    using assms by (simp add: sorted_wrt_map[symmetric] del: sorted_wrt_map)
  then have "sorted_wrt (\<lambda>x y. Row_LocalVersion x \<le> Row_LocalVersion y) (filter listens rs)"
    by (rule sorted_wrt_filter)
  then show "sorted_wrt (\<le>) (map Row_LocalVersion (received listens rs))"
    by (simp add: received_def sorted_wrt_map)
  assume "k = 0"
  then have "sorted_wrt (<) (map Row_LocalVersion rs)"
    using assms by (simp add: sorted_wrt_upt del: upt_Suc)
  then have "sorted_wrt (\<lambda>x y. Row_LocalVersion x < Row_LocalVersion y) rs"
    by (simp add: sorted_wrt_map)
  then have "sorted_wrt (\<lambda>x y. Row_LocalVersion x < Row_LocalVersion y) (filter listens rs)"
    by (rule sorted_wrt_filter)
  then show "sorted_wrt (<) (map Row_LocalVersion (received listens rs))"
    by (simp add: received_def sorted_wrt_map)
qed

text \<open>What a run from a new monitor delivers and keeps.\<close>

lemma run_from_NewMonitor:
  fixes earlier :: "'v Row list"
  assumes m_def: "m = snd (Notify_all (NewMonitor startVersion) earlier)"
      and delivered_def: "delivered = fst (Notify_all (NewMonitor startVersion) earlier)"
  shows "set delivered \<subseteq> set earlier"
    and "\<forall>w \<in> set earlier. Row_LocalVersion w \<le> lastDeliveredVersion m \<or> w \<in> set (pending m)"
    and "lastDeliveredVersion m + 1 \<notin> Row_LocalVersion ` set earlier"
    and "\<exists>k. map Row_LocalVersion delivered =
               replicate k 0 @ [startVersion + 1 ..< lastDeliveredVersion m + 1]
            \<and> (startVersion \<noteq> 0 \<longrightarrow> k = 0)"
    and "distinct (map Row_LocalVersion earlier) \<longrightarrow>
           (\<forall>w \<in> set earlier.
              startVersion < Row_LocalVersion w \<and> Row_LocalVersion w \<le> lastDeliveredVersion m \<longrightarrow>
              w \<in> set delivered)"
proof -
  have g0: "gap_free (NewMonitor startVersion :: 'v Monitor)" by (rule gap_free_NewMonitor)
  have p0: "pending (NewMonitor startVersion :: 'v Monitor) = []"
       "lastDeliveredVersion (NewMonitor startVersion :: 'v Monitor) = startVersion"
    by (simp_all add: NewMonitor_def)
  note k = Notify_all_keeps[OF g0, of earlier, unfolded p0, folded m_def delivered_def]
  from k show a: "set delivered \<subseteq> set earlier" by simp
  from k show b: "\<forall>w \<in> set earlier.
      Row_LocalVersion w \<le> lastDeliveredVersion m \<or> w \<in> set (pending m)" by simp
  have g: "gap_free m" unfolding m_def by (rule Notify_all_reachable)
  show c: "lastDeliveredVersion m + 1 \<notin> Row_LocalVersion ` set earlier"
  proof
    assume "lastDeliveredVersion m + 1 \<in> Row_LocalVersion ` set earlier"
    then obtain w where w: "w \<in> set earlier" "Row_LocalVersion w = lastDeliveredVersion m + 1"
      by auto
    with b have "w \<in> set (pending m)" by auto
    with g have "lastDeliveredVersion m + 1 < Row_LocalVersion w"
      by (simp add: gap_free_def list_all_iff)
    with w show False by simp
  qed
  obtain k where v: "map Row_LocalVersion delivered =
               replicate k 0 @ [startVersion + 1 ..< lastDeliveredVersion m + 1]"
            "startVersion \<noteq> 0 \<longrightarrow> k = 0"
    using Notify_all_versions[OF g0, of earlier, unfolded p0, folded m_def delivered_def]
    by blast
  then show "\<exists>k. map Row_LocalVersion delivered =
               replicate k 0 @ [startVersion + 1 ..< lastDeliveredVersion m + 1]
            \<and> (startVersion \<noteq> 0 \<longrightarrow> k = 0)" by blast
  show "distinct (map Row_LocalVersion earlier) \<longrightarrow>
           (\<forall>w \<in> set earlier.
              startVersion < Row_LocalVersion w \<and> Row_LocalVersion w \<le> lastDeliveredVersion m \<longrightarrow>
              w \<in> set delivered)"
  proof (intro impI ballI)
    fix w
    assume d: "distinct (map Row_LocalVersion earlier)" and w: "w \<in> set earlier"
      and r: "startVersion < Row_LocalVersion w \<and> Row_LocalVersion w \<le> lastDeliveredVersion m"
    then have "Row_LocalVersion w \<in> set [startVersion + 1 ..< lastDeliveredVersion m + 1]"
      by auto
    then have "Row_LocalVersion w \<in> set (map Row_LocalVersion delivered)"
      unfolding v(1) by (simp only: set_append UnI2)
    then obtain x where x: "x \<in> set delivered" "Row_LocalVersion x = Row_LocalVersion w"
      by auto
    with a have "x \<in> set earlier" by auto
    with d w x(2) have "x = w"
      by (metis distinct_map inj_on_def)
    with x show "w \<in> set delivered" by simp
  qed
qed

text \<open>The step that fills a gap: the buffered updates that now fit are delivered.\<close>

lemma Notify_fills_gap:
  assumes g: "gap_free m" and v: "Row_LocalVersion u = lastDeliveredVersion m + 1"
  shows "pending (snd (Notify m u)) =
           filter (\<lambda>w. lastDeliveredVersion (snd (Notify m u)) < Row_LocalVersion w) (pending m)"
    and "lastDeliveredVersion (snd (Notify m u)) + 1 \<notin> Row_LocalVersion ` set (pending m)"
    and "\<forall>w \<in> set (pending m).
           Row_LocalVersion w \<le> lastDeliveredVersion (snd (Notify m u)) \<longrightarrow>
           Row_LocalVersion w \<in> Row_LocalVersion ` set (fst (Notify m u))"
proof -
  let ?m1 = "m\<lparr>lastDeliveredVersion := Row_LocalVersion u\<rparr>"
  let ?l' = "lastDeliveredVersion (snd (Notify m u))"
  have pre: "list_all (\<lambda>w. lastDeliveredVersion ?m1 < Row_LocalVersion w) (pending ?m1)"
    using g v by (simp add: gap_free_def)
  have eq: "Notify m u = (u # fst (drain_pending ?m1), snd (drain_pending ?m1))"
    using v by (simp add: Notify_def split: prod.split)
  show p: "pending (snd (Notify m u)) = filter (\<lambda>w. ?l' < Row_LocalVersion w) (pending m)"
    using drain_pending_keeps[OF pre] by (simp add: eq)
  note st = Notify_step[OF g, of u]
  then have g': "gap_free (snd (Notify m u))" by simp
  show "?l' + 1 \<notin> Row_LocalVersion ` set (pending m)"
  proof
    assume "?l' + 1 \<in> Row_LocalVersion ` set (pending m)"
    then obtain w where w: "w \<in> set (pending m)" "Row_LocalVersion w = ?l' + 1" by auto
    then have "w \<in> set (pending (snd (Notify m u)))" by (simp add: p)
    with g' have "?l' + 1 < Row_LocalVersion w" by (simp add: gap_free_def list_all_iff)
    with w show False by simp
  qed
  have vs: "map Row_LocalVersion (fst (Notify m u)) = [lastDeliveredVersion m + 1 ..< ?l' + 1]"
    using st v by simp
  show "\<forall>w \<in> set (pending m).
           Row_LocalVersion w \<le> ?l' \<longrightarrow>
           Row_LocalVersion w \<in> Row_LocalVersion ` set (fst (Notify m u))"
  proof (intro ballI impI)
    fix w assume w: "w \<in> set (pending m)" and le: "Row_LocalVersion w \<le> ?l'"
    from g w have "lastDeliveredVersion m + 1 < Row_LocalVersion w"
      by (simp add: gap_free_def list_all_iff)
    with le have "Row_LocalVersion w \<in> set [lastDeliveredVersion m + 1 ..< ?l' + 1]" by auto
    then have "Row_LocalVersion w \<in> set (map Row_LocalVersion (fst (Notify m u)))"
      by (simp only: vs)
    then show "Row_LocalVersion w \<in> Row_LocalVersion ` set (fst (Notify m u))" by simp
  qed
qed

text \<open>
  Claim C1. In every state \<open>m\<close> a monitor reaches from \<^verbatim>\<open>NewMonitor(startVersion)\<close> by
  the notifications \<open>earlier\<close>:
  an update with \<open>0 < LocalVersion \<le> lastDeliveredVersion\<close> is discarded.
  An update with \<open>LocalVersion = lastDeliveredVersion + 1\<close> is delivered at once, first,
  and the buffer is drained in order behind it: the versions delivered are consecutive
  from \<open>lastDeliveredVersion + 1\<close> up to the new last delivered version, every update
  delivered is the notified one or a buffered one, every buffered version up to the new
  last delivered version is delivered, the draining stops only where the next version is
  not in the buffer, and exactly the buffered updates still ahead stay buffered.
  An update with a later version is buffered and nothing is delivered.
  An update with version 0 is delivered if \<open>lastDeliveredVersion = 0\<close> and discarded
  otherwise.
  Over any further notifications \<open>us\<close> the delivered versions are some zeros (none
  unless \<open>lastDeliveredVersion = 0\<close>) followed by \<open>lastDeliveredVersion + 1,
  lastDeliveredVersion + 2, ...\<close> without a gap; the buffer never holds an update that
  could be delivered; what any listener receives has non-decreasing versions, strictly
  increasing ones among the non-zero versions, and strictly increasing ones throughout
  when \<open>lastDeliveredVersion\<close> is not 0.
  Over the whole run so far: only notified updates were delivered; no notified update is
  lost (each is at or below the last delivered version, or still buffered); the version
  after the last delivered one was never notified; the delivered versions are zeros
  (none unless \<open>startVersion = 0\<close>) followed by \<open>startVersion + 1\<close> up to the last
  delivered version; and when the notified versions are distinct, every notified update
  with a version above \<open>startVersion\<close> and up to the last delivered one was delivered.
\<close>

theorem C1_monitor_delivers_in_order:
  assumes "m = snd (Notify_all (NewMonitor startVersion) earlier)"
  shows "(Row_LocalVersion u \<noteq> 0 \<and> Row_LocalVersion u \<le> lastDeliveredVersion m \<longrightarrow>
            Notify m u = ([], m))
       \<and> (Row_LocalVersion u = lastDeliveredVersion m + 1 \<longrightarrow>
            take 1 (fst (Notify m u)) = [u]
          \<and> map Row_LocalVersion (fst (Notify m u)) =
              [lastDeliveredVersion m + 1 ..< lastDeliveredVersion (snd (Notify m u)) + 1]
          \<and> set (fst (Notify m u)) \<subseteq> insert u (set (pending m))
          \<and> (\<forall>w \<in> set (pending m).
                Row_LocalVersion w \<le> lastDeliveredVersion (snd (Notify m u)) \<longrightarrow>
                Row_LocalVersion w \<in> Row_LocalVersion ` set (fst (Notify m u)))
          \<and> lastDeliveredVersion (snd (Notify m u)) + 1 \<notin> Row_LocalVersion ` set (pending m)
          \<and> pending (snd (Notify m u)) =
              filter (\<lambda>w. lastDeliveredVersion (snd (Notify m u)) < Row_LocalVersion w)
                (pending m))
       \<and> (lastDeliveredVersion m + 1 < Row_LocalVersion u \<longrightarrow>
            Notify m u = ([], m\<lparr>pending := pending m @ [u]\<rparr>))
       \<and> (Row_LocalVersion u = 0 \<longrightarrow>
            Notify m u = (if lastDeliveredVersion m = 0 then [u] else [], m))
       \<and> (\<exists>k. map Row_LocalVersion (fst (Notify_all m us)) =
                 replicate k 0
                 @ [lastDeliveredVersion m + 1 ..< lastDeliveredVersion (snd (Notify_all m us)) + 1]
              \<and> (lastDeliveredVersion m \<noteq> 0 \<longrightarrow> k = 0))
       \<and> list_all (\<lambda>w. lastDeliveredVersion m + 1 < Row_LocalVersion w) (pending m)
       \<and> sorted_wrt (<) (map Row_LocalVersion
            (filter (\<lambda>r. Row_LocalVersion r \<noteq> 0) (received listens (fst (Notify_all m us)))))
       \<and> sorted_wrt (\<le>) (map Row_LocalVersion (received listens (fst (Notify_all m us))))
       \<and> (lastDeliveredVersion m \<noteq> 0 \<longrightarrow>
            sorted_wrt (<) (map Row_LocalVersion (received listens (fst (Notify_all m us)))))
       \<and> set (fst (Notify_all (NewMonitor startVersion) earlier)) \<subseteq> set earlier
       \<and> (\<forall>w \<in> set earlier.
             Row_LocalVersion w \<le> lastDeliveredVersion m \<or> w \<in> set (pending m))
       \<and> lastDeliveredVersion m + 1 \<notin> Row_LocalVersion ` set earlier
       \<and> (\<exists>k. map Row_LocalVersion (fst (Notify_all (NewMonitor startVersion) earlier)) =
                 replicate k 0 @ [startVersion + 1 ..< lastDeliveredVersion m + 1]
              \<and> (startVersion \<noteq> 0 \<longrightarrow> k = 0))
       \<and> (distinct (map Row_LocalVersion earlier) \<longrightarrow>
            (\<forall>w \<in> set earlier.
               startVersion < Row_LocalVersion w \<and> Row_LocalVersion w \<le> lastDeliveredVersion m \<longrightarrow>
               w \<in> set (fst (Notify_all (NewMonitor startVersion) earlier))))"
proof -
  have g: "gap_free m" unfolding assms by (rule Notify_all_reachable)
  have c1: "Row_LocalVersion u \<noteq> 0 \<and> Row_LocalVersion u \<le> lastDeliveredVersion m \<longrightarrow>
            Notify m u = ([], m)"
    by (simp add: Notify_def)
  have c2: "Row_LocalVersion u = lastDeliveredVersion m + 1 \<longrightarrow>
            take 1 (fst (Notify m u)) = [u]
          \<and> map Row_LocalVersion (fst (Notify m u)) =
              [lastDeliveredVersion m + 1 ..< lastDeliveredVersion (snd (Notify m u)) + 1]
          \<and> set (fst (Notify m u)) \<subseteq> insert u (set (pending m))
          \<and> (\<forall>w \<in> set (pending m).
                Row_LocalVersion w \<le> lastDeliveredVersion (snd (Notify m u)) \<longrightarrow>
                Row_LocalVersion w \<in> Row_LocalVersion ` set (fst (Notify m u)))
          \<and> lastDeliveredVersion (snd (Notify m u)) + 1 \<notin> Row_LocalVersion ` set (pending m)
          \<and> pending (snd (Notify m u)) =
              filter (\<lambda>w. lastDeliveredVersion (snd (Notify m u)) < Row_LocalVersion w)
                (pending m)"
  proof
    assume v: "Row_LocalVersion u = lastDeliveredVersion m + 1"
    have a: "take 1 (fst (Notify m u)) = [u]"
      using v by (simp add: Notify_def split: prod.split)
    have b: "map Row_LocalVersion (fst (Notify m u)) =
              [lastDeliveredVersion m + 1 ..< lastDeliveredVersion (snd (Notify m u)) + 1]"
      using Notify_step[OF g, of u] v by simp
    note k = Notify_keeps(1)[OF g, of u]
    note f = Notify_fills_gap[OF g v]
    from a b k f show "take 1 (fst (Notify m u)) = [u]
          \<and> map Row_LocalVersion (fst (Notify m u)) =
              [lastDeliveredVersion m + 1 ..< lastDeliveredVersion (snd (Notify m u)) + 1]
          \<and> set (fst (Notify m u)) \<subseteq> insert u (set (pending m))
          \<and> (\<forall>w \<in> set (pending m).
                Row_LocalVersion w \<le> lastDeliveredVersion (snd (Notify m u)) \<longrightarrow>
                Row_LocalVersion w \<in> Row_LocalVersion ` set (fst (Notify m u)))
          \<and> lastDeliveredVersion (snd (Notify m u)) + 1 \<notin> Row_LocalVersion ` set (pending m)
          \<and> pending (snd (Notify m u)) =
              filter (\<lambda>w. lastDeliveredVersion (snd (Notify m u)) < Row_LocalVersion w)
                (pending m)"
      by blast
  qed
  have c3: "lastDeliveredVersion m + 1 < Row_LocalVersion u \<longrightarrow>
            Notify m u = ([], m\<lparr>pending := pending m @ [u]\<rparr>)"
    by (simp add: Notify_def)
  have c4: "Row_LocalVersion u = 0 \<longrightarrow>
            Notify m u = (if lastDeliveredVersion m = 0 then [u] else [], m)"
    by (simp add: Notify_def)
  obtain k where k:
    "map Row_LocalVersion (fst (Notify_all m us)) =
       replicate k 0
       @ [lastDeliveredVersion m + 1 ..< lastDeliveredVersion (snd (Notify_all m us)) + 1]"
    "lastDeliveredVersion m \<noteq> 0 \<longrightarrow> k = 0"
    using Notify_all_versions[OF g, of us] by blast
  have c5: "\<exists>k. map Row_LocalVersion (fst (Notify_all m us)) =
                 replicate k 0
                 @ [lastDeliveredVersion m + 1 ..< lastDeliveredVersion (snd (Notify_all m us)) + 1]
              \<and> (lastDeliveredVersion m \<noteq> 0 \<longrightarrow> k = 0)"
    using k by blast
  have c6: "list_all (\<lambda>w. lastDeliveredVersion m + 1 < Row_LocalVersion w) (pending m)"
    using g by (simp add: gap_free_def)
  have c7: "sorted_wrt (<) (map Row_LocalVersion
            (filter (\<lambda>r. Row_LocalVersion r \<noteq> 0) (received listens (fst (Notify_all m us)))))"
    using k(1) by (rule positive_versions_increasing)
  have c8: "sorted_wrt (\<le>) (map Row_LocalVersion (received listens (fst (Notify_all m us))))"
    using k(1) by (rule versions_increasing(1))
  have c9: "lastDeliveredVersion m \<noteq> 0 \<longrightarrow>
            sorted_wrt (<) (map Row_LocalVersion (received listens (fst (Notify_all m us))))"
    using versions_increasing(2)[OF k(1)] k(2) by blast
  note r = run_from_NewMonitor[OF assms refl]
  show ?thesis
    using c1 c2 c3 c4 c5 c6 c7 c8 c9 r by (intro conjI)
qed

text \<open>
  The gap-fill scenario of the monitor's tests: last delivered version 3; versions 5, 6
  and 8 are buffered; 4 releases 4, 5, 6 and leaves 8 buffered; 7 releases 7, 8, so the
  buffered updates 5 and 8 are among the delivered ones. Versions 1, 3 and 0 are
  discarded, and version 0 is delivered by a monitor whose last delivered version is 0.
\<close>

theorem C1_monitor_delivers_in_order_witness:
  "NewMonitor 3 = snd (Notify_all (NewMonitor 3) ([] :: unit Row list))
   \<and> fst (Notify_all (NewMonitor 3)
        [example_Row ''abcdef'' 5, example_Row ''abcdg'' 6, example_Row ''abcd'' 8]) = []
   \<and> fst (Notify (snd (Notify_all (NewMonitor 3)
        [example_Row ''abcdef'' 5, example_Row ''abcdg'' 6, example_Row ''abcd'' 8]))
        (example_Row ''abc'' 4)) =
       [example_Row ''abc'' 4, example_Row ''abcdef'' 5, example_Row ''abcdg'' 6]
   \<and> map Row_LocalVersion (fst (Notify_all (NewMonitor 3)
        [example_Row ''abcdef'' 5, example_Row ''abcdg'' 6, example_Row ''abcd'' 8,
         example_Row ''abc'' 4, example_Row ''aaaa'' 7])) = [4, 5, 6, 7, 8]
   \<and> Notify (NewMonitor 3) (example_Row ''abc'' 1) = ([], NewMonitor 3)
   \<and> Notify (NewMonitor 3) (example_Row ''abc'' 3) = ([], NewMonitor 3)
   \<and> Notify (NewMonitor 3) (example_Row ''abc'' 0) = ([], NewMonitor 3)
   \<and> fst (Notify (NewMonitor 0) (example_Row ''abc'' 0)) = [example_Row ''abc'' 0]
   \<and> take 1 (fst (Notify (NewMonitor 3) (example_Row ''abc'' 4))) = [example_Row ''abc'' 4]
   \<and> sorted_wrt (<) (map Row_LocalVersion
        (received (\<lambda>r. True) (fst (Notify_all (NewMonitor 3)
           [example_Row ''abcdef'' 5, example_Row ''abcdg'' 6, example_Row ''abcd'' 8,
            example_Row ''abc'' 4, example_Row ''aaaa'' 7]))))
   \<and> example_Row ''abcdef'' 5 \<in> set (fst (Notify_all (NewMonitor 3)
           [example_Row ''abcdef'' 5, example_Row ''abcdg'' 6, example_Row ''abcd'' 8,
            example_Row ''abc'' 4, example_Row ''aaaa'' 7]))
   \<and> example_Row ''abcd'' 8 \<in> set (fst (Notify_all (NewMonitor 3)
           [example_Row ''abcdef'' 5, example_Row ''abcdg'' 6, example_Row ''abcd'' 8,
            example_Row ''abc'' 4, example_Row ''aaaa'' 7]))
   \<and> pending (snd (Notify (snd (Notify_all (NewMonitor 3)
        [example_Row ''abcdef'' 5, example_Row ''abcdg'' 6, example_Row ''abcd'' 8]))
        (example_Row ''abc'' 4))) = [example_Row ''abcd'' 8]"
proof -
  let ?rows = "[example_Row ''abcdef'' 5, example_Row ''abcdg'' 6, example_Row ''abcd'' 8,
               example_Row ''abc'' 4, example_Row ''aaaa'' 7]"
  let ?first = "[example_Row ''abcdef'' 5, example_Row ''abcdg'' 6, example_Row ''abcd'' 8]"
  have h: "NewMonitor 3 = snd (Notify_all (NewMonitor 3) ([] :: unit Row list))"
    by simp
  have l: "lastDeliveredVersion (NewMonitor 3 :: unit Monitor) = 3"
    by (simp add: NewMonitor_def)
  have v: "Row_LocalVersion (example_Row k n) = n" for k n
    by (simp add: example_Row_def)
  have e1: "fst (Notify_all (NewMonitor 3) ?first) = []"
    by code_simp
  have e2: "fst (Notify (snd (Notify_all (NewMonitor 3) ?first)) (example_Row ''abc'' 4)) =
       [example_Row ''abc'' 4, example_Row ''abcdef'' 5, example_Row ''abcdg'' 6]"
    by code_simp
  have e3: "map Row_LocalVersion (fst (Notify_all (NewMonitor 3) ?rows)) = [4, 5, 6, 7, 8]"
    by code_simp
  have e4: "fst (Notify (NewMonitor 0) (example_Row ''abc'' 0)) = [example_Row ''abc'' 0]"
    by code_simp
  have e5: "lastDeliveredVersion (snd (Notify_all (NewMonitor 3) ?rows)) = 8"
    by code_simp
  have e6: "lastDeliveredVersion (snd (Notify_all (NewMonitor 3) ?first)) = 3"
           "pending (snd (Notify_all (NewMonitor 3) ?first)) = ?first"
           "lastDeliveredVersion (snd (Notify (snd (Notify_all (NewMonitor 3) ?first))
              (example_Row ''abc'' 4))) = 6"
    by code_simp+
  have t1: "Notify (NewMonitor 3) (example_Row ''abc'' 1) = ([], NewMonitor 3)"
    using C1_monitor_delivers_in_order[OF h, of "example_Row ''abc'' 1"] by (simp add: l v)
  have t2: "Notify (NewMonitor 3) (example_Row ''abc'' 3) = ([], NewMonitor 3)"
    using C1_monitor_delivers_in_order[OF h, of "example_Row ''abc'' 3"] by (simp add: l v)
  have t3: "Notify (NewMonitor 3) (example_Row ''abc'' 0) = ([], NewMonitor 3)"
    using C1_monitor_delivers_in_order[OF h, of "example_Row ''abc'' 0"] by (simp add: l v)
  have t4: "take 1 (fst (Notify (NewMonitor 3) (example_Row ''abc'' 4))) = [example_Row ''abc'' 4]"
    using C1_monitor_delivers_in_order[OF h, of "example_Row ''abc'' 4"] by (simp add: l v)
  have t5: "sorted_wrt (<) (map Row_LocalVersion
        (received (\<lambda>r. True) (fst (Notify_all (NewMonitor 3) ?rows))))"
    using C1_monitor_delivers_in_order[OF h, of _ ?rows "\<lambda>r. True"] l by simp
  have d: "distinct (map Row_LocalVersion ?rows)"
    by (simp add: v)
  have all: "\<forall>w \<in> set ?rows.
      3 < Row_LocalVersion w \<and> Row_LocalVersion w \<le> 8 \<longrightarrow>
      w \<in> set (fst (Notify_all (NewMonitor 3) ?rows))"
    using C1_monitor_delivers_in_order[OF refl, of _ 3 ?rows] d unfolding e5 by blast
  have t6: "example_Row ''abcdef'' 5 \<in> set (fst (Notify_all (NewMonitor 3) ?rows))"
    using all by (simp add: v)
  have t7: "example_Row ''abcd'' 8 \<in> set (fst (Notify_all (NewMonitor 3) ?rows))"
    using all by (simp add: v)
  have t8: "pending (snd (Notify (snd (Notify_all (NewMonitor 3) ?first))
        (example_Row ''abc'' 4))) = [example_Row ''abcd'' 8]"
    using C1_monitor_delivers_in_order[OF refl, of "example_Row ''abc'' 4" 3 ?first]
    by (simp add: e6 v)
  show ?thesis
    using h e1 e2 e3 e4 t1 t2 t3 t4 t5 t6 t7 t8 by (intro conjI)
qed

end
